theory Spec2Isabelle
  imports Main
begin

section \<open>Status codes\<close>

text \<open>
  The module mixes three integer code spaces in the single C variable \<open>retval\<close>: PAM
  status codes, Kerberos protocol error codes and \<open>errno\<close> values. All of them are
  C \<open>int\<close>s; the model keeps them as \<open>int\<close> and gives the constants the values of the
  Linux-PAM and MIT Kerberos headers (the headers are outside the repository).
\<close>

type_synonym krb5_error_code = int

definition PAM_SUCCESS :: int where "PAM_SUCCESS = 0"
definition PAM_SERVICE_ERR :: int where "PAM_SERVICE_ERR = 3"
definition PAM_AUTH_ERR :: int where "PAM_AUTH_ERR = 7"
definition PAM_AUTHINFO_UNAVAIL :: int where "PAM_AUTHINFO_UNAVAIL = 9"
definition PAM_USER_UNKNOWN :: int where "PAM_USER_UNKNOWN = 10"
definition PAM_NEW_AUTHTOK_REQD :: int where "PAM_NEW_AUTHTOK_REQD = 12"
definition PAM_ACCT_EXPIRED :: int where "PAM_ACCT_EXPIRED = 13"
definition PAM_CONV_ERR :: int where "PAM_CONV_ERR = 19"

definition ENOMEM :: int where "ENOMEM = 12"

definition KRB5KDC_ERR_NAME_EXP :: krb5_error_code where
  "KRB5KDC_ERR_NAME_EXP = - 1765328383"
definition KRB5KDC_ERR_C_PRINCIPAL_UNKNOWN :: krb5_error_code where
  "KRB5KDC_ERR_C_PRINCIPAL_UNKNOWN = - 1765328378"
definition KRB5KDC_ERR_BADOPTION :: krb5_error_code where
  "KRB5KDC_ERR_BADOPTION = - 1765328371"
definition KRB5KDC_ERR_KEY_EXP :: krb5_error_code where
  "KRB5KDC_ERR_KEY_EXP = - 1765328361"
definition KRB5KRB_AP_ERR_BAD_INTEGRITY :: krb5_error_code where
  "KRB5KRB_AP_ERR_BAD_INTEGRITY = - 1765328353"
definition KRB5_KDC_UNREACH :: krb5_error_code where
  "KRB5_KDC_UNREACH = - 1765328228"
definition KRB5_CC_NOMEM :: krb5_error_code where
  "KRB5_CC_NOMEM = - 1765328186"
definition KRB5_REALM_CANT_RESOLVE :: krb5_error_code where
  "KRB5_REALM_CANT_RESOLVE = - 1765328164"

lemmas pam_codes =
  PAM_SUCCESS_def PAM_SERVICE_ERR_def PAM_AUTH_ERR_def PAM_AUTHINFO_UNAVAIL_def
  PAM_USER_UNKNOWN_def PAM_NEW_AUTHTOK_REQD_def PAM_ACCT_EXPIRED_def PAM_CONV_ERR_def

lemmas krb5_codes =
  KRB5KDC_ERR_NAME_EXP_def KRB5KDC_ERR_C_PRINCIPAL_UNKNOWN_def KRB5KDC_ERR_BADOPTION_def
  KRB5KDC_ERR_KEY_EXP_def KRB5KRB_AP_ERR_BAD_INTEGRITY_def KRB5_KDC_UNREACH_def
  KRB5_CC_NOMEM_def KRB5_REALM_CANT_RESOLVE_def


section \<open>Data model of auth.c\<close>

text \<open>A Kerberos principal: the name components and the realm.\<close>

record principal =
  princ_name :: "string list"
  princ_realm :: string

text \<open>\<open>struct context\<close>: the account name and the resolved principal (\<open>NULL\<close> is \<open>None\<close>).\<close>

record k5_context =
  name :: string
  princ :: "principal option"

text \<open>
  \<open>struct pam_args\<close>, with the fields auth.c reads. \<open>preauth_opt\<close> is the C array of
  \<open>preauth_opt_count\<close> strings, some of which may be \<open>NULL\<close>.
\<close>

record pam_args =
  ctx :: "k5_context option"
  debug :: bool
  forwardable :: bool
  keytab :: "string option"
  lifetime :: int
  renew_lifetime :: int
  pkinit_anchors :: "string option"
  pkinit_prompt :: bool
  pkinit_user :: "string option"
  preauth_opt :: "string option list"
  prompt_princ :: bool
  realm :: "string option"
  search_k5login :: bool
  try_first_pass :: bool
  try_pkinit :: bool
  use_authtok :: bool
  use_first_pass :: bool
  use_pkinit :: bool

text \<open>
  The request options assembled in a \<open>krb5_get_init_creds_opt\<close>. A flag or lifetime
  nobody set is \<open>None\<close> (the library's default applies).
\<close>

record get_init_creds_opt =
  opt_forwardable :: "bool option"
  opt_proxiable :: "bool option"
  opt_tkt_life :: "int option"
  opt_renew_life :: "int option"
  opt_pa :: "(string \<times> string) list"
  opt_pkinit :: "(string option \<times> string option) option"
  opt_anonymous :: bool
  opt_out_ccache :: "string option"
  opt_fast_ccache :: "string option"

definition opt_init :: get_init_creds_opt where
  "opt_init = \<lparr>opt_forwardable = None, opt_proxiable = None, opt_tkt_life = None,
     opt_renew_life = None, opt_pa = [], opt_pkinit = None, opt_anonymous = False,
     opt_out_ccache = None, opt_fast_ccache = None\<rparr>"

text \<open>The ticket material a successful exchange leaves in a \<open>krb5_creds\<close>: client and service.\<close>

datatype ticket = Ticket "principal option" "string option"

record passwd =
  pw_uid :: nat
  pw_dir :: string

text \<open>An open \<open>.k5login\<close>: what \<open>fstat\<close> answers (\<open>Inl\<close> the \<open>errno\<close> of a failure,
  \<open>Inr\<close> the owner) and the bytes of the file.\<close>

record k5file =
  st_uid :: "int + nat"
  bytes :: string

datatype pam_item = PAM_AUTHTOK | PAM_OLDAUTHTOK

datatype alloc_site = NewUser | KUser | Filename | Creds | PkinitCreds

text \<open>The calls to the outside that the claims speak about, in the order they happen.\<close>

datatype event =
    Conv string
  | ParseName string
  | GetPassword "string option"
  | Exchange "principal option" "string option" "string option" krb5_error_code
  | Verify krb5_error_code
  | Calloc nat

text \<open>
  Compile-time configuration (\<open>config.h\<close> is not part of the sources): whether the
  Heimdal PKINIT block is compiled, the two smart-card statuses (0 when \<open>hx509_err.h\<close>
  does not define them), and whether the optional option setters exist.
\<close>

record build =
  have_pkinit :: bool
  HX509_PKCS11_NO_TOKEN :: int
  HX509_PKCS11_NO_SLOT :: int
  have_set_default_flags :: bool
  have_set_pa :: bool

text \<open>
  The collaborators outside the module, as the answers they give. Library calls that
  return a status and fill an out-parameter answer with a pair; the second component
  is only read when the status is 0. The authority (\<open>kdc\<close>) answers an exchange as a
  function of the identity, the password, the service and the options; \<open>alloc_ok\<close>
  says which allocations succeed.
\<close>

record env =
  pamk5_conv :: "string \<Rightarrow> int \<times> string"
  krb5_parse_name :: "string \<Rightarrow> krb5_error_code \<times> principal"
  krb5_aname_to_localname :: "principal \<Rightarrow> krb5_error_code \<times> string"
  alloc_ok :: "alloc_site \<Rightarrow> bool"
  pamk5_compat_getpwnam :: "string \<Rightarrow> passwd option"
  access_R_OK :: "string \<Rightarrow> bool"
  fopen_r :: "string \<Rightarrow> int + k5file"
  kdc :: "principal option \<Rightarrow> string option \<Rightarrow> string option \<Rightarrow>
          get_init_creds_opt \<Rightarrow> krb5_error_code"
  set_default_flags :: "get_init_creds_opt \<Rightarrow> get_init_creds_opt"
  krb5_get_init_creds_opt_alloc :: krb5_error_code
  krb5_get_init_creds_opt_set_pkinit :: krb5_error_code
  pamk5_compat_opt_alloc :: krb5_error_code
  pam_get_item_rc :: int
  pam_set_item_rc :: int
  krb5_kt_resolve :: "string \<Rightarrow> krb5_error_code"
  krb5_kt_start_seq_get :: "string \<Rightarrow> krb5_error_code"
  krb5_kt_next_entry :: "string \<Rightarrow> krb5_error_code \<times> principal"
  krb5_copy_principal :: krb5_error_code
  krb5_verify_init_creds :: "ticket option \<Rightarrow> principal option \<Rightarrow> string option \<Rightarrow>
          krb5_error_code"

text \<open>
  The mutable world: the log of calls, \<open>errno\<close>, the PAM item store, the answers the
  user will give to password prompts (status and password, consumed front first), and
  the heap of \<open>krb5_creds\<close> structures: \<open>structs\<close> are the allocated ones,
  \<open>material\<close> the ticket material held by a structure until
  \<open>krb5_free_cred_contents\<close> releases it.
\<close>

record world =
  trace :: "event list"
  errno :: int
  items :: "pam_item \<Rightarrow> string option"
  replies :: "(int \<times> string) list"
  structs :: "nat set"
  material :: "nat \<Rightarrow> ticket option"
  next_addr :: nat

definition log :: "event \<Rightarrow> world \<Rightarrow> world" where
  "log e w = w\<lparr>trace := trace w @ [e]\<rparr>"

definition calloc_creds :: "bool \<Rightarrow> world \<Rightarrow> nat option \<times> world" where
  "calloc_creds ok w =
     (if ok
      then (Some (next_addr w),
            log (Calloc (next_addr w))
              (w\<lparr>structs := insert (next_addr w) (structs w), next_addr := Suc (next_addr w)\<rparr>))
      else (None, w))"

definition free_creds :: "nat \<Rightarrow> world \<Rightarrow> world" where
  "free_creds p w = w\<lparr>structs := structs w - {p}\<rparr>"

definition krb5_free_cred_contents :: "nat \<Rightarrow> world \<Rightarrow> world" where
  "krb5_free_cred_contents p w = w\<lparr>material := (material w)(p := None)\<rparr>"

text \<open>One exchange with the authority; on success the structure holds the ticket.\<close>

definition krb5_get_init_creds_password ::
  "env \<Rightarrow> nat \<Rightarrow> principal option \<Rightarrow> string option \<Rightarrow> string option \<Rightarrow>
   get_init_creds_opt \<Rightarrow> world \<Rightarrow> krb5_error_code \<times> world" where
  "krb5_get_init_creds_password E cr pr pw service opts w =
     (let rc = kdc E pr pw service opts;
          w1 = log (Exchange pr pw service rc) w
      in if rc = 0 then (0, w1\<lparr>material := (material w1)(cr \<mapsto> Ticket pr service)\<rparr>)
         else (rc, w1))"


section \<open>Principal resolution: \<open>parse_name\<close>\<close>

text \<open>
  The name \<open>user\<close> points to after the prompt block. \<open>pamk5_conv\<close> stores the answer
  through its last argument only when it succeeds, so after a failed prompt \<open>user\<close>
  still is \<open>ctx->name\<close>. The test \<open>*user == '\0'\<close> then frees \<open>user\<close> and goes back to
  \<open>ctx->name\<close>: after a successful prompt with an empty answer that frees the answer;
  after a failed prompt with an empty \<open>ctx->name\<close> it frees \<open>ctx->name\<close> itself, which
  the code goes on to read. That is \<open>None\<close>, undefined behaviour. Otherwise strings are
  values here: their buffers are not tracked, only the allocations that can fail.
\<close>

definition working_name :: "env \<Rightarrow> pam_args \<Rightarrow> k5_context \<Rightarrow> string option" where
  "working_name E args c =
     (if prompt_princ args
      then (let (rv, reply) = pamk5_conv E ''Principal: ''
            in if rv = PAM_SUCCESS
               then Some (if reply = [] then name c else reply)
               else if name c = [] then None else Some (name c))
      else Some (name c))"

text \<open>
  \<open>parse_name\<close>: the status, the context and the world; \<open>None\<close> when the freed name is
  read.
\<close>

definition parse_name ::
  "env \<Rightarrow> pam_args \<Rightarrow> k5_context \<Rightarrow> world \<Rightarrow>
   (krb5_error_code \<times> k5_context \<times> world) option" where
  "parse_name E args c w =
     (case working_name E args c of
        None \<Rightarrow> None
      | Some user \<Rightarrow>
          (let w1 = (if prompt_princ args then log (Conv ''Principal: '') w else w);
               qualified =
                 (case realm args of
                    None \<Rightarrow> Some user
                  | Some r \<Rightarrow>
                      if CHR ''@'' \<notin> set user
                      then (if alloc_ok E NewUser then Some (user @ ''@'' @ r) else None)
                      else Some user)
           in case qualified of
                None \<Rightarrow> Some (KRB5_CC_NOMEM, c, w1)
              | Some u \<Rightarrow>
                  (let (k5_errno, p) = krb5_parse_name E u;
                       w2 = log (ParseName u) w1;
                       c1 = (if k5_errno = 0 then c\<lparr>princ := Some p\<rparr> else c)
                   in if k5_errno = 0 \<and> CHR ''@'' \<in> set (name c)
                      then (let (rc, kuser) = krb5_aname_to_localname E p
                            in if rc \<noteq> 0 then Some (0, c1, w2)
                               else if \<not> alloc_ok E KUser then Some (0, c1, w2)
                               else Some (k5_errno, c1\<lparr>name := kuser\<rparr>, w2))
                      else Some (k5_errno, c1, w2))))"





section \<open>Request options: \<open>set_credential_options\<close>\<close>

fun preauth_pairs :: "string option list \<Rightarrow> (string \<times> string) list" where
  "preauth_pairs [] = []"
| "preauth_pairs (None # xs) = preauth_pairs xs"
| "preauth_pairs (Some s # xs) =
     (if CHR ''='' \<in> set s
      then (takeWhile (\<lambda>ch. ch \<noteq> CHR ''='') s, tl (dropWhile (\<lambda>ch. ch \<noteq> CHR ''='') s))
      else (s, ''yes'')) # preauth_pairs xs"

definition set_credential_options ::
  "build \<Rightarrow> env \<Rightarrow> pam_args \<Rightarrow> get_init_creds_opt \<Rightarrow> bool \<Rightarrow> get_init_creds_opt" where
  "set_credential_options B E args opts0 service =
     (let o1 = (if have_set_default_flags B then set_default_flags E opts0 else opts0);
          o2 = (if \<not> service
                then (let a = (if forwardable args then o1\<lparr>opt_forwardable := Some True\<rparr> else o1);
                          b = (if lifetime args \<noteq> 0 then a\<lparr>opt_tkt_life := Some (lifetime args)\<rparr>
                               else a)
                      in if renew_lifetime args \<noteq> 0
                         then b\<lparr>opt_renew_life := Some (renew_lifetime args)\<rparr> else b)
                else o1\<lparr>opt_forwardable := Some False, opt_proxiable := Some False,
                        opt_renew_life := Some 0\<rparr>)
      in if have_set_pa B \<and> try_pkinit args
         then o2\<lparr>opt_pa := opt_pa o2
                  @ (case pkinit_user args of None \<Rightarrow> []
                     | Some u \<Rightarrow> [(''X509_user_identity'', u)])
                  @ (case pkinit_anchors args of None \<Rightarrow> []
                     | Some a \<Rightarrow> [(''X509_anchors'', a)])
                  @ preauth_pairs (preauth_opt args)\<rparr>
         else o2)"


section \<open>Trust-file authentication: \<open>k5login_password_auth\<close>\<close>

text \<open>\<open>BUFSIZ\<close> of \<open>stdio.h\<close> (the value of glibc; the C standard asks for 256 at least).\<close>

definition BUFSIZ :: nat where "BUFSIZ = 8192"

text \<open>
  \<open>fgets(line, n, f)\<close> on the unread bytes of the stream: \<open>None\<close> at end of file,
  otherwise the bytes stored in \<open>line\<close> (at most \<open>n - 1\<close>, ending after the first line
  feed) and the bytes still unread.
\<close>

definition fgets :: "nat \<Rightarrow> string \<Rightarrow> (string \<times> string) option" where
  "fgets n s =
     (if s = [] then None
      else (let l = takeWhile (\<lambda>ch. ch \<noteq> CHR 0x0A) s
            in if length l < n - 1 \<and> length l < length s
               then Some (l @ [CHR 0x0A], drop (Suc (length l)) s)
               else Some (take (n - 1) s, drop (n - 1) s)))"

definition strlen :: "string \<Rightarrow> nat" where
  "strlen s = length (takeWhile (\<lambda>ch. ch \<noteq> CHR 0x00) s)"

text \<open>
  The test \<open>line[len - 1] == '\n'\<close> with \<open>len = strlen(line)\<close>. When the buffer starts
  with a NUL byte \<open>len\<close> is 0 and the C code reads the byte before the buffer: that
  is \<open>None\<close>, undefined behaviour, and it ends the whole run with \<open>None\<close>.
\<close>

definition last_is_newline :: "string \<Rightarrow> bool option" where
  "last_is_newline line =
     (let len = strlen line
      in if len = 0 then None else Some (line ! (len - 1) = CHR 0x0A))"

lemma fgets_shorter: "fgets BUFSIZ s = Some (line, rest) \<Longrightarrow> length rest < length s"
  by (auto simp: fgets_def BUFSIZ_def Let_def split: if_splits)

text \<open>The inner loop: drop the remainder of a line that did not fit the buffer.\<close>

function skip_to_newline :: "string \<Rightarrow> string option" where
  "skip_to_newline s =
     (case fgets BUFSIZ s of
        None \<Rightarrow> Some s
      | Some (line, rest) \<Rightarrow>
          (case last_is_newline line of
             None \<Rightarrow> None
           | Some nl \<Rightarrow> if nl then Some rest else skip_to_newline rest))"
  by pat_completeness auto
termination
  by (relation "measure length") (auto dest: fgets_shorter)

declare skip_to_newline.simps [simp del]

lemma skip_to_newline_length: "skip_to_newline s = Some r \<Longrightarrow> length r \<le> length s"
proof (induction s arbitrary: r rule: skip_to_newline.induct)
  case (1 s)
  show ?case
  proof (cases "fgets BUFSIZ s")
    case None
    with "1.prems" show ?thesis by (simp add: skip_to_newline.simps [of s])
  next
    case (Some lr)
    obtain line rest where lr: "lr = (line, rest)" by (cases lr)
    have got: "fgets BUFSIZ s = Some (line, rest)" using Some lr by simp
    have shorter: "length rest < length s"
      using got by (rule fgets_shorter)
    show ?thesis
    proof (cases "last_is_newline line")
      case None
      with "1.prems" got show ?thesis by (simp add: skip_to_newline.simps [of s])
    next
      case (Some nl)
      show ?thesis
      proof (cases nl)
        case True
        with "1.prems" got Some shorter show ?thesis
          by (simp add: skip_to_newline.simps [of s])
      next
        case False
        with "1.prems" got Some
        have "skip_to_newline rest = Some r" by (simp add: skip_to_newline.simps [of s])
        with "1.IH" got Some False
        have "length r \<le> length rest" by simp
        with shorter show ?thesis by simp
      qed
    qed
  qed
qed

text \<open>
  The \<open>while (fgets ...)\<close> loop over the unread bytes \<open>s\<close>. The state is the value
  behind \<open>retval\<close>, the context and the world; \<open>cr\<close> is the \<open>krb5_creds\<close> the caller
  passed. The result is the PAM status with the final state.
\<close>

function k5login_loop ::
  "env \<Rightarrow> nat \<Rightarrow> get_init_creds_opt \<Rightarrow> string option \<Rightarrow> string option \<Rightarrow> string \<Rightarrow>
   krb5_error_code \<Rightarrow> k5_context \<Rightarrow> world \<Rightarrow> (int \<times> krb5_error_code \<times> k5_context \<times> world) option"
  where
  "k5login_loop E cr opts service pass s retval c w =
     (case fgets BUFSIZ s of
        None \<Rightarrow> Some (PAM_AUTH_ERR, retval, c, w)
      | Some (line, rest) \<Rightarrow>
          (case last_is_newline line of
             None \<Rightarrow> None
           | Some nl \<Rightarrow>
               if \<not> nl
               then (case skip_to_newline rest of
                       None \<Rightarrow> None
                     | Some rest' \<Rightarrow> k5login_loop E cr opts service pass rest' retval c w)
               else (let (k5_errno, p) = krb5_parse_name E (take (strlen line - 1) line);
                         w1 = log (ParseName (take (strlen line - 1) line)) w
                     in if k5_errno \<noteq> 0
                        then k5login_loop E cr opts service pass rest retval c w1
                        else (let (rv, w2) =
                                    krb5_get_init_creds_password E cr (Some p) pass service opts w1
                              in if rv = 0
                                 then Some (PAM_SUCCESS, rv, c\<lparr>princ := Some p\<rparr>, w2)
                                 else k5login_loop E cr opts service pass rest rv c w2))))"
  by pat_completeness auto
termination
  by (relation "measure (\<lambda>(E, cr, opts, service, pass, s, retval, c, w). length s)")
     (auto dest!: fgets_shorter skip_to_newline_length)

declare k5login_loop.simps [simp del]

definition k5login_password_auth ::
  "env \<Rightarrow> k5_context \<Rightarrow> nat \<Rightarrow> get_init_creds_opt \<Rightarrow> string option \<Rightarrow> string option \<Rightarrow>
   world \<Rightarrow> (int \<times> krb5_error_code \<times> k5_context \<times> world) option" where
  "k5login_password_auth E c cr opts service pass w =
     (let pwd = pamk5_compat_getpwnam E (name c);
          filename = (case pwd of
                        None \<Rightarrow> None
                      | Some pw \<Rightarrow> if alloc_ok E Filename then Some (pw_dir pw @ ''/.k5login'')
                                   else None)
      in case (pwd, filename) of
           (Some pw, Some fn) \<Rightarrow>
             if \<not> access_R_OK E fn
             then (let (rv, w1) = krb5_get_init_creds_password E cr (princ c) pass service opts w
                   in Some (if rv = 0 then PAM_SUCCESS else PAM_AUTH_ERR, rv, c, w1))
             else (case fopen_r E fn of
                     Inl e \<Rightarrow> Some (PAM_AUTH_ERR, e, c, w\<lparr>errno := e\<rparr>)
                   | Inr f \<Rightarrow>
                       (case st_uid f of
                          Inl e \<Rightarrow> Some (PAM_AUTH_ERR, e, c, w\<lparr>errno := e\<rparr>)
                        | Inr uid \<Rightarrow>
                            if uid \<noteq> 0 \<and> uid \<noteq> pw_uid pw
                            then Some (PAM_AUTH_ERR, errno w, c, w)
                            else k5login_loop E cr opts service pass (bytes f)
                                   KRB5KRB_AP_ERR_BAD_INTEGRITY c w))
         | _ \<Rightarrow>
             (let (rv, w1) = krb5_get_init_creds_password E cr (princ c) pass service opts w
              in Some (if rv = 0 then PAM_SUCCESS else PAM_AUTH_ERR, rv, c, w1)))"


text \<open>
  The lines of a trust file as the loop above extracts them: the text of every buffer
  that ends with a line feed, without the line feed, in file order. A line that did
  not fit the buffer is dropped up to its line feed, as in the loop. \<open>None\<close> when the
  loop would read before the buffer.
\<close>

function k5login_lines :: "string \<Rightarrow> string list option" where
  "k5login_lines s =
     (case fgets BUFSIZ s of
        None \<Rightarrow> Some []
      | Some (line, rest) \<Rightarrow>
          (case last_is_newline line of
             None \<Rightarrow> None
           | Some nl \<Rightarrow>
               if \<not> nl
               then (case skip_to_newline rest of
                       None \<Rightarrow> None
                     | Some rest' \<Rightarrow> k5login_lines rest')
               else (case k5login_lines rest of
                       None \<Rightarrow> None
                     | Some ls \<Rightarrow> Some (take (strlen line - 1) line # ls))))"
  by pat_completeness auto
termination
  by (relation "measure length") (auto dest!: fgets_shorter skip_to_newline_length)

declare k5login_lines.simps [simp del]

text \<open>The candidate identities of a list of lines: what the parser makes of the lines
  it accepts, in order.\<close>

definition candidates :: "env \<Rightarrow> string list \<Rightarrow> principal list" where
  "candidates E ls =
     map (\<lambda>l. snd (krb5_parse_name E l)) (filter (\<lambda>l. fst (krb5_parse_name E l) = 0) ls)"

text \<open>
  The lines of a file read as a text: the runs of bytes that a line feed ends, in file
  order, without the line feed. Bytes after the last line feed are not a line.
\<close>

fun file_lines :: "string \<Rightarrow> string list" where
  "file_lines [] = []"
| "file_lines (ch # s) =
     (if ch = CHR 0x0A then [] # file_lines s
      else (case file_lines s of [] \<Rightarrow> [] | l # ls \<Rightarrow> (ch # l) # ls))"

text \<open>
  The lines of a trust file: those that fit the buffer of \<open>BUFSIZ\<close> bytes together
  with their line feed and the closing NUL. Longer lines are ignored on purpose
  (``Ignore any lines that are too long'').
\<close>

definition trust_file_lines :: "string \<Rightarrow> string list" where
  "trust_file_lines s = filter (\<lambda>t. length t < BUFSIZ - 1) (file_lines s)"

text \<open>The body of the loop, run over lines already extracted.\<close>

fun try_lines ::
  "env \<Rightarrow> nat \<Rightarrow> get_init_creds_opt \<Rightarrow> string option \<Rightarrow> string option \<Rightarrow> string list \<Rightarrow>
   krb5_error_code \<Rightarrow> k5_context \<Rightarrow> world \<Rightarrow> int \<times> krb5_error_code \<times> k5_context \<times> world"
  where
  "try_lines E cr opts service pass [] retval c w = (PAM_AUTH_ERR, retval, c, w)"
| "try_lines E cr opts service pass (l # ls) retval c w =
     (let (k5_errno, p) = krb5_parse_name E l;
          w1 = log (ParseName l) w
      in if k5_errno \<noteq> 0 then try_lines E cr opts service pass ls retval c w1
         else (let (rv, w2) = krb5_get_init_creds_password E cr (Some p) pass service opts w1
               in if rv = 0 then (PAM_SUCCESS, rv, c\<lparr>princ := Some p\<rparr>, w2)
                  else try_lines E cr opts service pass ls rv c w2))"

text \<open>The identities an exchange was attempted for, in the order of the log.\<close>

fun attempted :: "event list \<Rightarrow> principal option list" where
  "attempted [] = []"
| "attempted (Exchange pr pw service rc # es) = pr # attempted es"
| "attempted (e # es) = attempted es"

text \<open>The number of password prompts in a log.\<close>

fun prompts :: "event list \<Rightarrow> nat" where
  "prompts [] = 0"
| "prompts (GetPassword prompt # es) = Suc (prompts es)"
| "prompts (e # es) = prompts es"

text \<open>The number of verifications in a log.\<close>

fun verifications :: "event list \<Rightarrow> nat" where
  "verifications [] = 0"
| "verifications (Verify rc # es) = Suc (verifications es)"
| "verifications (e # es) = verifications es"


section \<open>Public-key authentication: \<open>pkinit_auth\<close>\<close>

text \<open>
  Returns the status and the new value of \<open>*creds\<close>. The early return after a failed
  \<open>krb5_get_init_creds_opt_alloc\<close> leaves the fresh structure in \<open>*creds\<close>; every
  failure that passes the label \<open>done\<close> releases it.
\<close>

definition pkinit_auth ::
  "build \<Rightarrow> env \<Rightarrow> pam_args \<Rightarrow> k5_context \<Rightarrow> string option \<Rightarrow> world \<Rightarrow>
   krb5_error_code \<times> nat option \<times> world" where
  "pkinit_auth B E args c service w =
     (let w0 = (if pkinit_prompt args
                then log (Conv (if use_pkinit args
                                then ''Insert smart card and press Enter:''
                                else ''Insert smart card if desired, then press Enter:'')) w
                else w);
          (creds, w1) = calloc_creds (alloc_ok E PkinitCreds) w0
      in case creds of
           None \<Rightarrow> (ENOMEM, None, w1)
         | Some cr \<Rightarrow>
             if krb5_get_init_creds_opt_alloc E \<noteq> 0
             then (krb5_get_init_creds_opt_alloc E, Some cr, w1)
             else (let opts = set_credential_options B E args opt_init (service \<noteq> None);
                       opts1 = opts\<lparr>opt_pkinit := Some (pkinit_user args, pkinit_anchors args)\<rparr>;
                       (rv, w2) =
                         (if krb5_get_init_creds_opt_set_pkinit E \<noteq> 0
                          then (krb5_get_init_creds_opt_set_pkinit E, w1)
                          else krb5_get_init_creds_password E cr (princ c) None service opts1 w1)
                   in if rv \<noteq> 0
                      then (rv, None, free_creds cr (krb5_free_cred_contents cr w2))
                      else (rv, Some cr, w2)))"


section \<open>Credential verification: \<open>verify_creds\<close>\<close>

text \<open>
  The keytab scan decides which principal and keytab \<open>krb5_verify_init_creds\<close> gets;
  the status returned is the one of \<open>krb5_verify_init_creds\<close> alone.
\<close>

definition verify_creds ::
  "env \<Rightarrow> pam_args \<Rightarrow> nat option \<Rightarrow> world \<Rightarrow> krb5_error_code \<times> world" where
  "verify_creds E args creds w =
     (let (kt, pr) =
            (case keytab args of
               None \<Rightarrow> (None, None)
             | Some k \<Rightarrow>
                 if krb5_kt_resolve E k \<noteq> 0 then (None, None)
                 else if krb5_kt_start_seq_get E k \<noteq> 0 then (Some k, None)
                 else (let (rc, p) = krb5_kt_next_entry E k
                       in if rc \<noteq> 0 then (Some k, None)
                          else if krb5_copy_principal E \<noteq> 0 then (Some k, None)
                          else (Some k, Some p)));
          rv = krb5_verify_init_creds E
                 (case creds of None \<Rightarrow> None | Some cr \<Rightarrow> material w cr) pr kt
      in (rv, log (Verify rv) w))"


section \<open>The orchestrator: \<open>pamk5_password_auth\<close>\<close>

definition authtok :: "string option \<Rightarrow> pam_item" where
  "authtok service = (if service = None then PAM_AUTHTOK else PAM_OLDAUTHTOK)"

text \<open>
  \<open>pamk5_get_password\<close> (not in the sources) asks the user: the next answer of the
  world is consumed; with no answer left the conversation fails.
\<close>

definition pamk5_get_password :: "string option \<Rightarrow> world \<Rightarrow> int \<times> string \<times> world" where
  "pamk5_get_password prompt w =
     (case replies w of
        [] \<Rightarrow> (PAM_CONV_ERR, [], log (GetPassword prompt) w)
      | (rv, pw) # rest \<Rightarrow> (rv, pw, log (GetPassword prompt) (w\<lparr>replies := rest\<rparr>)))"

text \<open>
  The body of \<open>if (pass == NULL)\<close> in the loop. \<open>Failed\<close> is \<open>goto done\<close> with
  \<open>PAM_SERVICE_ERR\<close>. The prompted buffer is wiped and freed before \<open>pam_get_item\<close>
  reloads \<open>pass\<close>; if that call fails \<open>pass\<close> still points to the freed buffer
  (\<open>Dangling\<close>, undefined behaviour).
\<close>

datatype prompted = Failed world | Got "string option" world | Dangling

definition prompt_password :: "env \<Rightarrow> string option \<Rightarrow> world \<Rightarrow> prompted" where
  "prompt_password E service w =
     (let (rv, pw, w1) =
            pamk5_get_password (if service = None then None else Some ''Current'') w
      in if rv \<noteq> PAM_SUCCESS then Failed w1
         else if pam_set_item_rc E \<noteq> PAM_SUCCESS then Failed w1
         else (let w2 = w1\<lparr>items := (items w1)(authtok service := Some pw)\<rparr>
               in if pam_get_item_rc E = PAM_SUCCESS then Got (items w2 (authtok service)) w2
                  else Dangling))"

text \<open>The block under \<open>/* Get a TGT */\<close>: the status \<open>success\<close>, \<open>retval\<close> and the state.\<close>

definition get_tgt ::
  "env \<Rightarrow> pam_args \<Rightarrow> k5_context \<Rightarrow> nat \<Rightarrow> get_init_creds_opt \<Rightarrow> string option \<Rightarrow>
   string option \<Rightarrow> world \<Rightarrow> (int \<times> krb5_error_code \<times> k5_context \<times> world) option" where
  "get_tgt E args c cr opts service pass w =
     (if search_k5login args then k5login_password_auth E c cr opts service pass w
      else (let (rv, w1) = krb5_get_init_creds_password E cr (princ c) pass service opts w
            in Some (if rv = 0 then PAM_SUCCESS else PAM_AUTH_ERR, rv, c, w1)))"

text \<open>
  The \<open>do ... while (retry && retval == KRB5KRB_AP_ERR_BAD_INTEGRITY)\<close> loop, entered
  with the current \<open>pass\<close> and \<open>retry\<close>. It yields \<open>retval\<close> and \<open>creds_valid\<close> as they
  are at the label \<open>done\<close>, with the context and the world.
\<close>

function password_loop ::
  "env \<Rightarrow> pam_args \<Rightarrow> k5_context \<Rightarrow> nat \<Rightarrow> get_init_creds_opt \<Rightarrow> string option \<Rightarrow>
   string option \<Rightarrow> bool \<Rightarrow> world \<Rightarrow> (krb5_error_code \<times> bool \<times> k5_context \<times> world) option"
  where
  "password_loop E args c cr opts service pass retry w =
     (let retry1 = (if pass = None then False else retry)
      in case (case pass of None \<Rightarrow> prompt_password E service w | Some pw \<Rightarrow> Got (Some pw) w) of
           Dangling \<Rightarrow> None
         | Failed w1 \<Rightarrow> Some (PAM_SERVICE_ERR, False, c, w1)
         | Got pass1 w1 \<Rightarrow>
             (case get_tgt E args c cr opts service pass1 w1 of
                None \<Rightarrow> None
              | Some (success, rv, c1, w2) \<Rightarrow>
                  if success = PAM_SUCCESS
                  then Some (rv, rv = 0, c1, w2)
                  else if retry1 \<and> rv = KRB5KRB_AP_ERR_BAD_INTEGRITY
                       then password_loop E args c1 cr opts service None retry1 w2
                       else Some (rv, rv = 0, c1, w2)))"
  by pat_completeness auto
termination
  by (relation "measure (\<lambda>(E, args, c, cr, opts, service, pass, retry, w).
                   if pass \<noteq> None \<and> retry then 1 else 0)")
     (auto split: if_splits)

declare password_loop.simps [simp del]

text \<open>The \<open>switch\<close> that turns the failure code into the status the caller sees.\<close>

definition pam_error :: "krb5_error_code \<Rightarrow> int" where
  "pam_error retval =
     (if retval = KRB5KDC_ERR_C_PRINCIPAL_UNKNOWN then PAM_USER_UNKNOWN
      else if retval = KRB5KDC_ERR_KEY_EXP then PAM_NEW_AUTHTOK_REQD
      else if retval = KRB5KDC_ERR_NAME_EXP then PAM_ACCT_EXPIRED
      else if retval = KRB5_KDC_UNREACH \<or> retval = KRB5_REALM_CANT_RESOLVE
           then PAM_AUTHINFO_UNAVAIL
      else PAM_AUTH_ERR)"

text \<open>
  The code from the label \<open>done\<close> to the return: verification, release of the
  credential on failure, and the status. The result is the status, \<open>*creds\<close> and the
  world.
\<close>

definition done_label ::
  "env \<Rightarrow> pam_args \<Rightarrow> string option \<Rightarrow> krb5_error_code \<Rightarrow> nat option \<Rightarrow> bool \<Rightarrow> world \<Rightarrow>
   int \<times> nat option \<times> world" where
  "done_label E args service retval creds creds_valid w =
     (let (rv, w1) = (if retval = 0 \<and> service = None then verify_creds E args creds w
                      else (retval, w))
      in if rv = 0 then (PAM_SUCCESS, creds, w1)
         else (pam_error rv, None,
               (case creds of
                  None \<Rightarrow> w1
                | Some cr \<Rightarrow>
                    free_creds cr (if creds_valid then krb5_free_cred_contents cr w1 else w1))))"

text \<open>
  The PKINIT block between the resolution and the password path. The first component
  says whether control jumps to \<open>done\<close>; then come \<open>retval\<close>, \<open>*creds\<close> and the world.
\<close>

definition pkinit_stage ::
  "build \<Rightarrow> env \<Rightarrow> pam_args \<Rightarrow> k5_context \<Rightarrow> string option \<Rightarrow> nat option \<Rightarrow> world \<Rightarrow>
   bool \<times> krb5_error_code \<times> nat option \<times> world" where
  "pkinit_stage B E args c service creds0 w =
     (if have_pkinit B
      then (if use_pkinit args \<or> try_pkinit args
            then (let (rv, creds, w1) = pkinit_auth B E args c service w
                  in if rv = 0 then (True, rv, creds, w1)
                     else if rv \<noteq> HX509_PKCS11_NO_TOKEN B \<and> rv \<noteq> HX509_PKCS11_NO_SLOT B
                          then (True, rv, creds, w1)
                     else if rv \<noteq> 0 \<and> use_pkinit args then (True, rv, creds, w1)
                     else (False, rv, creds, w1))
            else (False, 0, creds0, w))
      else (if use_pkinit args then (True, KRB5_KDC_UNREACH, creds0, w)
            else (False, 0, creds0, w)))"

text \<open>
  The read of the stored password before the loop: \<open>pam_get_item\<close> is called when one of
  the first-pass options is set, and gives \<open>retval\<close> and \<open>pass\<close>. Without the call
  \<open>retval\<close> is still 0 and \<open>pass\<close> is \<open>NULL\<close>.
\<close>

definition stored_password ::
  "env \<Rightarrow> pam_args \<Rightarrow> string option \<Rightarrow> world \<Rightarrow> int \<times> string option" where
  "stored_password E args service w =
     (if try_first_pass args \<or> use_first_pass args \<or> use_authtok args
      then (pam_get_item_rc E,
            if pam_get_item_rc E = PAM_SUCCESS then items w (authtok service) else None)
      else (0, None))"

text \<open>
  Where the code before the label \<open>done\<close> ends: at one of the three early
  \<open>return\<close> statements (status, \<open>*creds\<close>, context, world), or at \<open>done\<close> with the
  values of \<open>retval\<close>, \<open>*creds\<close> and \<open>creds_valid\<close>.
\<close>

datatype flow =
    Return int "nat option" "k5_context option" world
  | Done krb5_error_code "nat option" bool k5_context world

text \<open>
  The call up to the label \<open>done\<close>. \<open>creds0\<close> is what \<open>*creds\<close> holds on entry.
  \<open>creds_valid\<close> has no initialiser and is first assigned after the PKINIT block, so on
  a jump to \<open>done\<close> from that block it holds an indeterminate value: the parameter
  \<open>cv0\<close>. \<open>None\<close> is undefined behaviour. (The debug message with the unparsed
  principal changes nothing and is left out.)
\<close>

definition password_auth_body ::
  "build \<Rightarrow> env \<Rightarrow> pam_args \<Rightarrow> string option \<Rightarrow> nat option \<Rightarrow> bool \<Rightarrow> world \<Rightarrow> flow option"
  where
  "password_auth_body B E args service creds0 cv0 w =
     (case ctx args of
        None \<Rightarrow> Some (Return PAM_SERVICE_ERR creds0 None w)
      | Some c0 \<Rightarrow>
          (case parse_name E args c0 w of
             None \<Rightarrow> None
           | Some (rv0, c, w1) \<Rightarrow>
               if rv0 \<noteq> 0 then Some (Return PAM_SERVICE_ERR creds0 (Some c) w1)
               else (let (jump, rv1, creds1, w2) = pkinit_stage B E args c service creds0 w1
                     in if jump then Some (Done rv1 creds1 cv0 c w2)
                        else (let (creds, w3) = calloc_creds (alloc_ok E Creds) w2
                              in case creds of
                                   None \<Rightarrow> Some (Return PAM_SERVICE_ERR None (Some c) w3)
                                 | Some cr \<Rightarrow>
                                     if pamk5_compat_opt_alloc E \<noteq> 0
                                     then Some (Done (pamk5_compat_opt_alloc E) (Some cr) False c w3)
                                     else (let opts = set_credential_options B E args opt_init
                                                        (service \<noteq> None);
                                               (rv, pass) = stored_password E args service w3
                                           in if use_authtok args \<and> (rv \<noteq> PAM_SUCCESS \<or> pass = None)
                                              then Some (Done PAM_SERVICE_ERR (Some cr) False c w3)
                                              else (case password_loop E args c cr opts service pass
                                                           (try_first_pass args) w3 of
                                                      None \<Rightarrow> None
                                                    | Some (rv2, cv, c2, w4) \<Rightarrow>
                                                        Some (Done rv2 (Some cr) cv c2 w4)))))))"

text \<open>
  The whole call: the status, \<open>*creds\<close>, the context (\<open>None\<close> when \<open>args->ctx\<close> is
  \<open>NULL\<close>) and the world.
\<close>

definition pamk5_password_auth ::
  "build \<Rightarrow> env \<Rightarrow> pam_args \<Rightarrow> string option \<Rightarrow> nat option \<Rightarrow> bool \<Rightarrow> world \<Rightarrow>
   (int \<times> nat option \<times> k5_context option \<times> world) option" where
  "pamk5_password_auth B E args service creds0 cv0 w =
     (case password_auth_body B E args service creds0 cv0 w of
        None \<Rightarrow> None
      | Some (Return st creds c w') \<Rightarrow> Some (st, creds, c, w')
      | Some (Done retval creds creds_valid c w1) \<Rightarrow>
          (let (st, creds', w') = done_label E args service retval creds creds_valid w1
           in Some (st, creds', Some c, w')))"


section \<open>Armor provisioning: fast.c\<close>

text \<open>
  fast.c reads its settings through \<open>args->config\<close>: the directory for ticket caches,
  the configured armor cache, and whether anonymous armoring is allowed.
\<close>

record fast_config =
  ccache_dir :: string
  fast_ccache :: "string option"
  anon_fast :: bool

text \<open>Which optional library calls exist (\<open>config.h\<close> is not part of the sources).\<close>

record fast_build =
  have_set_anonymous :: bool
  have_set_out_ccache :: bool
  have_set_fast_ccache_name :: bool

text \<open>The names of the anonymous principal, as \<open>krb5.h\<close> gives them.\<close>

definition KRB5_WELLKNOWN_NAME :: string where "KRB5_WELLKNOWN_NAME = ''WELLKNOWN''"
definition KRB5_ANON_NAME :: string where "KRB5_ANON_NAME = ''ANONYMOUS''"

definition EEXIST :: int where "EEXIST = 17"
definition EINVAL :: int where "EINVAL = 22"

datatype fast_event =
    Mkstemp string
  | CcResolve string
  | AnonExchange principal "string option" get_init_creds_opt krb5_error_code
  | CcDestroy string

text \<open>
  The answers of the library to fast.c. A ticket cache is known by its name;
  \<open>krb5_cc_get_full_name\<close> is asked about the handle \<open>cache_init_anonymous\<close> left,
  which the code does not test (\<open>None\<close> is \<open>NULL\<close>).
\<close>

record fast_env =
  krb5_get_default_realm :: "krb5_error_code \<times> string"
  krb5_build_principal_ext :: krb5_error_code
  asprintf_ok :: bool
  mkstemp_suffix :: string
  krb5_cc_resolve :: "string \<Rightarrow> krb5_error_code"
  krb5_cc_get_principal :: "string \<Rightarrow> krb5_error_code"
  fast_opt_alloc :: krb5_error_code
  anon_kdc :: "principal \<Rightarrow> get_init_creds_opt \<Rightarrow> krb5_error_code"
  krb5_cc_initialize :: krb5_error_code
  krb5_cc_store_cred :: krb5_error_code
  krb5_cc_get_full_name :: "string option \<Rightarrow> krb5_error_code \<times> string"
  krb5_get_init_creds_opt_set_fast_ccache_name :: krb5_error_code

text \<open>
  The state fast.c works on: the log, \<open>errno\<close>, the files that exist, and the
  session's \<open>anon_fast_ccache\<close>.
\<close>

record fast_world =
  fast_trace :: "fast_event list"
  fast_errno :: int
  files :: "string set"
  anon_fast_ccache :: "string option"

definition fast_log :: "fast_event \<Rightarrow> fast_world \<Rightarrow> fast_world" where
  "fast_log e w = w\<lparr>fast_trace := fast_trace w @ [e]\<rparr>"

text \<open>
  Modelled from the spec: \<open>pamk5_cache_mkstemp\<close> lives in a file of the repository that
  is not among the sources. The spec says the armor cache is created ``with a
  securely-generated unique name'', ``generated with a secure-random suffix under a
  configured directory''. The model replaces the six \<open>X\<close> of the template by the suffix
  the system picks and creates the file; it fails with \<open>EEXIST\<close> when a file of that
  name exists already. It returns a PAM status and the path now held in the buffer.
\<close>

definition pamk5_cache_mkstemp ::
  "fast_env \<Rightarrow> string \<Rightarrow> fast_world \<Rightarrow> int \<times> string \<times> fast_world" where
  "pamk5_cache_mkstemp E template w =
     (let path = take (length template - 6) template @ mkstemp_suffix E
      in if path \<in> files w then (PAM_SERVICE_ERR, template, w\<lparr>fast_errno := EEXIST\<rparr>)
         else (PAM_SUCCESS, path, fast_log (Mkstemp path) (w\<lparr>files := insert path (files w)\<rparr>)))"

definition krb5_cc_destroy :: "string \<Rightarrow> fast_world \<Rightarrow> fast_world" where
  "krb5_cc_destroy cache w = fast_log (CcDestroy cache) (w\<lparr>files := files w - {cache}\<rparr>)"

text \<open>
  \<open>cache_init_anonymous\<close>: the status and \<open>*ccache\<close>. Without
  \<open>krb5_get_init_creds_opt_set_anonymous\<close> the function is the stub that returns
  \<open>KRB5KDC_ERR_BADOPTION\<close>.
\<close>

definition cache_init_anonymous ::
  "fast_build \<Rightarrow> fast_env \<Rightarrow> fast_config \<Rightarrow> fast_world \<Rightarrow>
   krb5_error_code \<times> string option \<times> fast_world" where
  "cache_init_anonymous B E cfg w =
     (if \<not> have_set_anonymous B then (KRB5KDC_ERR_BADOPTION, None, w)
      else (let (rc, r) = krb5_get_default_realm E
            in if rc \<noteq> 0 then (rc, None, w)
               else if krb5_build_principal_ext E \<noteq> 0
               then (krb5_build_principal_ext E, None, w)
               else (let anon = \<lparr>princ_name = [KRB5_WELLKNOWN_NAME, KRB5_ANON_NAME],
                                  princ_realm = r\<rparr>;
                         dir = (if take 5 (ccache_dir cfg) = ''FILE:''
                                then drop 5 (ccache_dir cfg) else ccache_dir cfg)
                     in if \<not> asprintf_ok E then (fast_errno w, None, w)
                        else (let (status, path, w1) =
                                    pamk5_cache_mkstemp E (dir @ ''/krb5cc_pam_armor_XXXXXX'') w
                              in if status \<noteq> PAM_SUCCESS then (fast_errno w1, None, w1)
                                 else (let w2 = fast_log (CcResolve path) w1
                                       in if krb5_cc_resolve E path \<noteq> 0
                                          then (krb5_cc_resolve E path, None, w2)
                                          else if fast_opt_alloc E \<noteq> 0
                                          then (fast_opt_alloc E, None, krb5_cc_destroy path w2)
                                          else (let opts = opt_init\<lparr>opt_anonymous := True,
                                                             opt_tkt_life := Some 60,
                                                             opt_out_ccache :=
                                                               (if have_set_out_ccache B
                                                                then Some path else None)\<rparr>;
                                                    rv = anon_kdc E anon opts;
                                                    w3 = fast_log (AnonExchange anon None opts rv) w2
                                                in if rv \<noteq> 0
                                                   then (rv, None, krb5_cc_destroy path w3)
                                                   else if have_set_out_ccache B
                                                   then (0, Some path, w3)
                                                   else if krb5_cc_initialize E \<noteq> 0
                                                   then (krb5_cc_initialize E, None,
                                                         krb5_cc_destroy path w3)
                                                   else if krb5_cc_store_cred E \<noteq> 0
                                                   then (krb5_cc_store_cred E, None,
                                                         krb5_cc_destroy path w3)
                                                   else (0, Some path, w3)))))))"

text \<open>The configured armor cache is valid when it resolves and holds a principal.\<close>

definition configured_cache_valid :: "fast_env \<Rightarrow> fast_config \<Rightarrow> bool" where
  "configured_cache_valid E cfg =
     (case fast_ccache cfg of
        None \<Rightarrow> False
      | Some cache \<Rightarrow> krb5_cc_resolve E cache = 0 \<and> krb5_cc_get_principal E cache = 0)"

text \<open>
  \<open>pamk5_fast_setup\<close>: the option set and the state afterwards. Without
  \<open>krb5_get_init_creds_opt_set_fast_ccache_name\<close> the function is empty. After
  \<open>cache_init_anonymous\<close> only the status is tested: with status 0 the old session
  cache is destroyed and the handle is stored and named, whatever it is.
\<close>

definition pamk5_fast_setup ::
  "fast_build \<Rightarrow> fast_env \<Rightarrow> fast_config \<Rightarrow> get_init_creds_opt \<Rightarrow> fast_world \<Rightarrow>
   get_init_creds_opt \<times> fast_world" where
  "pamk5_fast_setup B E cfg opts w =
     (if \<not> have_set_fast_ccache_name B then (opts, w)
      else if \<not> configured_cache_valid E cfg \<and> anon_fast cfg
      then (let (rc, ccache, w1) = cache_init_anonymous B E cfg w
            in if rc \<noteq> 0 then (opts, w1)
               else (let w2 = (case anon_fast_ccache w1 of
                                 None \<Rightarrow> w1
                               | Some old \<Rightarrow> krb5_cc_destroy old w1);
                         w3 = w2\<lparr>anon_fast_ccache := ccache\<rparr>;
                         (rc2, full) = krb5_cc_get_full_name E ccache
                     in if rc2 \<noteq> 0 then (opts, w3)
                        else if krb5_get_init_creds_opt_set_fast_ccache_name E \<noteq> 0
                        then (opts, w3)
                        else (opts\<lparr>opt_fast_ccache := Some full\<rparr>, w3)))
      else if configured_cache_valid E cfg
      then (case fast_ccache cfg of
              None \<Rightarrow> (opts, w)
            | Some cache \<Rightarrow>
                if krb5_get_init_creds_opt_set_fast_ccache_name E \<noteq> 0 then (opts, w)
                else (opts\<lparr>opt_fast_ccache := Some cache\<rparr>, w))
      else (opts, w))"


section \<open>A concrete deployment\<close>

text \<open>
  A small world to run the model on: the realm \<open>EXAMPLE.ORG\<close>, the account \<open>bob\<close>
  with the password \<open>secret\<close>, and a parser that splits a name at the realm separator
  and refuses empty names and names that start with \<open>#\<close>.
\<close>

definition KRB5_PARSE_MALFORMED :: krb5_error_code where
  "KRB5_PARSE_MALFORMED = - 1765328250"

definition ex_parse :: "string \<Rightarrow> krb5_error_code \<times> principal" where
  "ex_parse s =
     (if s = [] \<or> take 1 s = ''#''
      then (KRB5_PARSE_MALFORMED, \<lparr>princ_name = [], princ_realm = []\<rparr>)
      else if CHR ''@'' \<in> set s
      then (0, \<lparr>princ_name = [takeWhile (\<lambda>ch. ch \<noteq> CHR ''@'') s],
                princ_realm = tl (dropWhile (\<lambda>ch. ch \<noteq> CHR ''@'') s)\<rparr>)
      else (0, \<lparr>princ_name = [s], princ_realm = ''EXAMPLE.ORG''\<rparr>))"

definition bob :: principal where
  "bob = \<lparr>princ_name = [''bob''], princ_realm = ''EXAMPLE.ORG''\<rparr>"

definition ex_k5login :: string where
  "ex_k5login = ''bob@OTHER.ORG'' @ [CHR 0x0A] @ ''# comment'' @ [CHR 0x0A]
     @ ''bob@EXAMPLE.ORG'' @ [CHR 0x0A] @ ''carol@EXAMPLE.ORG'' @ [CHR 0x0A]"

definition ex_env :: env where
  "ex_env = \<lparr>
     pamk5_conv = (\<lambda>msg. (PAM_SUCCESS, [])),
     krb5_parse_name = ex_parse,
     krb5_aname_to_localname = (\<lambda>p. (0, concat (princ_name p))),
     alloc_ok = (\<lambda>site. True),
     pamk5_compat_getpwnam =
       (\<lambda>n. if n = ''bob'' then Some \<lparr>pw_uid = 1000, pw_dir = ''/home/bob''\<rparr> else None),
     access_R_OK = (\<lambda>fn. fn = ''/home/bob/.k5login''),
     fopen_r = (\<lambda>fn. Inr \<lparr>st_uid = Inr 1000, bytes = ex_k5login\<rparr>),
     kdc = (\<lambda>pr pw service opts.
              if pr = Some bob
              then (if pw = Some ''secret'' then 0 else KRB5KRB_AP_ERR_BAD_INTEGRITY)
              else KRB5KDC_ERR_C_PRINCIPAL_UNKNOWN),
     set_default_flags = (\<lambda>opts. opts),
     krb5_get_init_creds_opt_alloc = 0,
     krb5_get_init_creds_opt_set_pkinit = 0,
     pamk5_compat_opt_alloc = 0,
     pam_get_item_rc = PAM_SUCCESS,
     pam_set_item_rc = PAM_SUCCESS,
     krb5_kt_resolve = (\<lambda>k. 0),
     krb5_kt_start_seq_get = (\<lambda>k. 0),
     krb5_kt_next_entry = (\<lambda>k. (0, \<lparr>princ_name = [''host'', ''server''], princ_realm = ''EXAMPLE.ORG''\<rparr>)),
     krb5_copy_principal = 0,
     krb5_verify_init_creds = (\<lambda>t pr kt. 0)\<rparr>"

definition ex_build :: build where
  "ex_build = \<lparr>have_pkinit = False, HX509_PKCS11_NO_TOKEN = 0, HX509_PKCS11_NO_SLOT = 0,
     have_set_default_flags = False, have_set_pa = False\<rparr>"

definition ex_ctx :: k5_context where
  "ex_ctx = \<lparr>name = ''bob'', princ = None\<rparr>"

definition ex_args :: pam_args where
  "ex_args = \<lparr>ctx = Some ex_ctx, debug = False, forwardable = False, keytab = None,
     lifetime = 0, renew_lifetime = 0, pkinit_anchors = None, pkinit_prompt = False,
     pkinit_user = None, preauth_opt = [], prompt_princ = False, realm = None,
     search_k5login = False, try_first_pass = False, try_pkinit = False,
     use_authtok = False, use_first_pass = False, use_pkinit = False\<rparr>"

definition ex_world :: world where
  "ex_world = \<lparr>trace = [], errno = 0, items = (\<lambda>i. None), replies = [],
     structs = {}, material = (\<lambda>a. None), next_addr = 0\<rparr>"


text \<open>The same deployment when the trust file of \<open>bob\<close> (uid 1000) belongs to uid 1001.\<close>

definition ex_foreign_env :: env where
  "ex_foreign_env = ex_env\<lparr>fopen_r := (\<lambda>fn. Inr \<lparr>st_uid = Inr 1001, bytes = ex_k5login\<rparr>)\<rparr>"

text \<open>The same deployment when the trust file of \<open>bob\<close> starts with a comment line that
  holds a NUL byte.\<close>

definition ex_nul_k5login :: string where
  "ex_nul_k5login = ''#'' @ [CHR 0x00] @ [CHR 0x0A] @ ''bob@EXAMPLE.ORG'' @ [CHR 0x0A]"

definition ex_nul_env :: env where
  "ex_nul_env = ex_env\<lparr>fopen_r := (\<lambda>fn. Inr \<lparr>st_uid = Inr 1000, bytes = ex_nul_k5login\<rparr>)\<rparr>"

text \<open>A world in which the item store holds the stale password \<open>old\<close> and the user will
  type \<open>wrong\<close>, then \<open>secret\<close>.\<close>

definition ex_retry_world :: world where
  "ex_retry_world = ex_world\<lparr>items := (\<lambda>i. Some ''old''),
     replies := [(0, ''wrong''), (0, ''secret'')]\<rparr>"

text \<open>An authority that accepts the PKINIT exchange, and a verification that fails.\<close>

definition ex_pkinit_env :: env where
  "ex_pkinit_env = ex_env\<lparr>
     kdc := (\<lambda>pr pw service opts.
               if pw = None \<and> opt_pkinit opts \<noteq> None then 0 else KRB5KRB_AP_ERR_BAD_INTEGRITY),
     krb5_verify_init_creds := (\<lambda>t pr kt. KRB5KRB_AP_ERR_BAD_INTEGRITY)\<rparr>"

text \<open>A deployment for fast.c: no armor cache is configured, anonymous armoring is allowed,
  and ticket caches live in \<open>/tmp\<close>.\<close>

definition ex_fast_env :: fast_env where
  "ex_fast_env = \<lparr>
     krb5_get_default_realm = (0, ''EXAMPLE.ORG''),
     krb5_build_principal_ext = 0,
     asprintf_ok = True,
     mkstemp_suffix = ''a1B2c3'',
     krb5_cc_resolve = (\<lambda>n. 0),
     krb5_cc_get_principal = (\<lambda>n. 0),
     fast_opt_alloc = 0,
     anon_kdc = (\<lambda>p opts. 0),
     krb5_cc_initialize = 0,
     krb5_cc_store_cred = 0,
     krb5_cc_get_full_name =
       (\<lambda>cc. case cc of None \<Rightarrow> (EINVAL, []) | Some n \<Rightarrow> (0, ''FILE:'' @ n)),
     krb5_get_init_creds_opt_set_fast_ccache_name = 0\<rparr>"

definition ex_fast_build :: fast_build where
  "ex_fast_build = \<lparr>have_set_anonymous = True, have_set_out_ccache = True,
     have_set_fast_ccache_name = True\<rparr>"

definition ex_fast_config :: fast_config where
  "ex_fast_config = \<lparr>ccache_dir = ''FILE:/tmp'', fast_ccache = None, anon_fast = True\<rparr>"

definition ex_fast_world :: fast_world where
  "ex_fast_world = \<lparr>fast_trace = [], fast_errno = 0, files = {}, anon_fast_ccache = None\<rparr>"

lemmas ex_fast_defs = ex_fast_env_def ex_fast_build_def ex_fast_config_def ex_fast_world_def


section \<open>Properties of the trust-file authenticator\<close>

lemmas ex_defs = ex_env_def ex_args_def ex_world_def ex_build_def ex_ctx_def ex_parse_def bob_def
  ex_k5login_def KRB5_PARSE_MALFORMED_def

lemmas k5login_eval = k5login_lines.simps fgets_def last_is_newline_def strlen_def BUFSIZ_def

text \<open>The loop over the bytes is the loop body run over the extracted lines.\<close>

lemma k5login_loop_lines:
  "k5login_lines s = Some ls \<Longrightarrow>
   k5login_loop E cr opts service pass s retval c w
     = Some (try_lines E cr opts service pass ls retval c w)"
proof (induction E cr opts service pass s retval c w arbitrary: ls rule: k5login_loop.induct)
  case (1 E cr opts service pass s retval c w)
  show ?case
  proof (cases "fgets BUFSIZ s")
    case None
    with "1.prems" show ?thesis
      by (simp add: k5login_loop.simps [of _ _ _ _ _ s] k5login_lines.simps [of s])
  next
    case (Some lr)
    obtain line rest where got: "fgets BUFSIZ s = Some (line, rest)"
      using Some by (cases lr) simp
    show ?thesis
    proof (cases "last_is_newline line")
      case None
      with "1.prems" got show ?thesis by (simp add: k5login_lines.simps [of s])
    next
      case nl: (Some nl)
      show ?thesis
      proof (cases nl)
        case False
        show ?thesis
        proof (cases "skip_to_newline rest")
          case None
          with "1.prems" got nl False show ?thesis by (simp add: k5login_lines.simps [of s])
        next
          case (Some rest')
          with "1.prems" got nl False have "k5login_lines rest' = Some ls"
            by (simp add: k5login_lines.simps [of s])
          with "1.IH"(1) got nl False Some
          have "k5login_loop E cr opts service pass rest' retval c w
                  = Some (try_lines E cr opts service pass ls retval c w)"
            by simp
          with got nl False Some show ?thesis
            by (simp add: k5login_loop.simps [of _ _ _ _ _ s])
        qed
      next
        case True
        from "1.prems" got nl True obtain ls' where
          ls': "k5login_lines rest = Some ls'" and ls: "ls = take (strlen line - 1) line # ls'"
          by (auto simp: k5login_lines.simps [of s] split: option.splits)
        obtain k5 p where parse: "krb5_parse_name E (take (strlen line - 1) line) = (k5, p)"
          by (cases "krb5_parse_name E (take (strlen line - 1) line)")
        show ?thesis
        proof (cases "k5 = 0")
          case False
          with "1.IH"(2) got nl True parse ls'
          have "k5login_loop E cr opts service pass rest retval c
                   (log (ParseName (take (strlen line - 1) line)) w)
                = Some (try_lines E cr opts service pass ls' retval c
                   (log (ParseName (take (strlen line - 1) line)) w))"
            by simp
          with got nl True parse False ls show ?thesis
            by (simp add: k5login_loop.simps [of _ _ _ _ _ s])
        next
          case k5: True
          obtain rv w2 where ex: "krb5_get_init_creds_password E cr (Some p) pass service opts
                (log (ParseName (take (strlen line - 1) line)) w) = (rv, w2)"
            by (cases "krb5_get_init_creds_password E cr (Some p) pass service opts
                (log (ParseName (take (strlen line - 1) line)) w)")
          show ?thesis
          proof (cases "rv = 0")
            case True
            with got nl \<open>nl\<close> parse k5 ex ls show ?thesis
              by (simp add: k5login_loop.simps [of _ _ _ _ _ s])
          next
            case False
            with "1.IH"(3) got nl \<open>nl\<close> parse k5 ex ls'
            have "k5login_loop E cr opts service pass rest rv c w2
                = Some (try_lines E cr opts service pass ls' rv c w2)"
              by simp
            with got nl \<open>nl\<close> parse k5 ex ls False show ?thesis
              by (simp add: k5login_loop.simps [of _ _ _ _ _ s])
          qed
        qed
      qed
    qed
  qed
qed

lemma attempted_append: "attempted (xs @ ys) = attempted xs @ attempted ys"
  by (induction xs rule: attempted.induct) simp_all

lemma try_lines_no_candidate:
  "\<forall>l\<in>set ls. fst (krb5_parse_name E l) \<noteq> 0 \<Longrightarrow>
   \<exists>w'. try_lines E cr opts service pass ls retval c w = (PAM_AUTH_ERR, retval, c, w')
        \<and> attempted (trace w') = attempted (trace w)"
proof (induction ls arbitrary: w)
  case Nil
  show ?case by simp
next
  case (Cons l ls)
  obtain k5 p where parse: "krb5_parse_name E l = (k5, p)" by (cases "krb5_parse_name E l")
  with Cons.prems have k5: "k5 \<noteq> 0" by simp
  from Cons.prems have "\<forall>l\<in>set ls. fst (krb5_parse_name E l) \<noteq> 0" by simp
  from Cons.IH [OF this, of "log (ParseName l) w"]
  obtain w' where "try_lines E cr opts service pass ls retval c (log (ParseName l) w)
        = (PAM_AUTH_ERR, retval, c, w')"
      and "attempted (trace w') = attempted (trace (log (ParseName l) w))"
    by blast
  with parse k5 show ?case by (simp add: log_def attempted_append)
qed

lemma try_lines_first_success:
  assumes "k < length (candidates E ls)"
      and "kdc E (Some (candidates E ls ! k)) pass service opts = 0"
      and "\<forall>j<k. kdc E (Some (candidates E ls ! j)) pass service opts \<noteq> 0"
  shows "\<exists>w'. try_lines E cr opts service pass ls retval c w
                 = (PAM_SUCCESS, 0, c\<lparr>princ := Some (candidates E ls ! k)\<rparr>, w')
             \<and> attempted (trace w')
                 = attempted (trace w) @ map Some (take (Suc k) (candidates E ls))"
  using assms
proof (induction ls arbitrary: k retval w)
  case Nil
  then show ?case by (simp add: candidates_def)
next
  case (Cons l ls)
  obtain k5 p where parse: "krb5_parse_name E l = (k5, p)" by (cases "krb5_parse_name E l")
  let ?w1 = "log (ParseName l) w"
  have tr1: "attempted (trace ?w1) = attempted (trace w)"
    by (simp add: log_def attempted_append)
  show ?case
  proof (cases "k5 = 0")
    case False
    with parse have same: "candidates E (l # ls) = candidates E ls"
      by (simp add: candidates_def)
    from Cons.IH [of k retval ?w1] Cons.prems same
    obtain w' where "try_lines E cr opts service pass ls retval c ?w1
          = (PAM_SUCCESS, 0, c\<lparr>princ := Some (candidates E ls ! k)\<rparr>, w')"
        and "attempted (trace w') = attempted (trace ?w1) @ map Some (take (Suc k) (candidates E ls))"
      by auto
    with parse False same tr1 show ?thesis by simp
  next
    case True
    with parse have cs: "candidates E (l # ls) = p # candidates E ls"
      by (simp add: candidates_def)
    let ?rc = "kdc E (Some p) pass service opts"
    let ?w2 = "log (Exchange (Some p) pass service ?rc) ?w1"
    have tr2: "attempted (trace ?w2) = attempted (trace w) @ [Some p]"
      by (simp add: log_def attempted_append)
    show ?thesis
    proof (cases k)
      case 0
      with Cons.prems cs have ok: "?rc = 0" by simp
      with parse True cs 0 tr2 show ?thesis
        by (simp add: krb5_get_init_creds_password_def Let_def log_def attempted_append)
    next
      case (Suc k')
      with Cons.prems cs have bad: "?rc \<noteq> 0" by auto
      have p1: "k' < length (candidates E ls)" using Cons.prems(1) cs Suc by simp
      have p2: "kdc E (Some (candidates E ls ! k')) pass service opts = 0"
        using Cons.prems(2) cs Suc by simp
      have p3: "\<forall>j<k'. kdc E (Some (candidates E ls ! j)) pass service opts \<noteq> 0"
      proof (intro allI impI)
        fix j assume "j < k'"
        then have "Suc j < k" using Suc by simp
        with Cons.prems(3) have "kdc E (Some (candidates E (l # ls) ! Suc j)) pass service opts \<noteq> 0"
          by blast
        then show "kdc E (Some (candidates E ls ! j)) pass service opts \<noteq> 0"
          using cs by simp
      qed
      from Cons.IH [OF p1 p2 p3, of ?rc ?w2]
      obtain w' where r: "try_lines E cr opts service pass ls ?rc c ?w2
            = (PAM_SUCCESS, 0, c\<lparr>princ := Some (candidates E ls ! k')\<rparr>, w')"
          and t: "attempted (trace w') = attempted (trace ?w2) @ map Some (take (Suc k') (candidates E ls))"
        by blast
      from parse True bad r have "try_lines E cr opts service pass (l # ls) retval c w
            = (PAM_SUCCESS, 0, c\<lparr>princ := Some (candidates E ls ! k')\<rparr>, w')"
        by (simp add: krb5_get_init_creds_password_def Let_def)
      moreover from t tr2 have "attempted (trace w')
            = attempted (trace w) @ map Some (take (Suc k) (candidates E (l # ls)))"
        using cs Suc by simp
      ultimately show ?thesis using cs Suc by simp
    qed
  qed
qed

lemma k5login_accepted:
  assumes "pamk5_compat_getpwnam E (name c) = Some pw"
      and "alloc_ok E Filename"
      and "access_R_OK E (pw_dir pw @ ''/.k5login'')"
      and "fopen_r E (pw_dir pw @ ''/.k5login'') = Inr f"
      and "st_uid f = Inr uid"
      and "uid = 0 \<or> uid = pw_uid pw"
      and "k5login_lines (bytes f) = Some ls"
  shows "k5login_password_auth E c cr opts service pass w
           = Some (try_lines E cr opts service pass ls KRB5KRB_AP_ERR_BAD_INTEGRITY c w)"
proof -
  have "k5login_password_auth E c cr opts service pass w
          = k5login_loop E cr opts service pass (bytes f) KRB5KRB_AP_ERR_BAD_INTEGRITY c w"
    using assms(1-6) by (auto simp: k5login_password_auth_def)
  with assms(7) show ?thesis by (simp add: k5login_loop_lines)
qed

text \<open>
  Claim C2. When the trust file is opened but its owner is neither the account nor
  uid 0, trust-file authentication returns \<open>PAM_AUTH_ERR\<close> (which is not
  \<open>PAM_SUCCESS\<close>), and the world is left as it was: no line is parsed and no exchange is
  attempted. The error reported by reference is the current \<open>errno\<close>.
\<close>

theorem k5login_bad_owner:
  assumes "pamk5_compat_getpwnam E (name c) = Some pw"
      and "alloc_ok E Filename"
      and "access_R_OK E (pw_dir pw @ ''/.k5login'')"
      and "fopen_r E (pw_dir pw @ ''/.k5login'') = Inr f"
      and "st_uid f = Inr uid"
      and "uid \<noteq> 0" and "uid \<noteq> pw_uid pw"
  shows "k5login_password_auth E c cr opts service pass w = Some (PAM_AUTH_ERR, errno w, c, w)
         \<and> PAM_AUTH_ERR \<noteq> PAM_SUCCESS"
  using assms by (simp add: k5login_password_auth_def pam_codes)

text \<open>The file of the example, owned by uid 1001, for the account \<open>bob\<close> (uid 1000).\<close>

theorem k5login_bad_owner_witness:
  "k5login_password_auth ex_foreign_env ex_ctx 0 opt_init None (Some ''secret'') ex_world
   = Some (PAM_AUTH_ERR, 0, ex_ctx, ex_world)
   \<and> trace ex_world = []"
proof -
  have "k5login_password_auth ex_foreign_env ex_ctx 0 opt_init None (Some ''secret'') ex_world
          = Some (PAM_AUTH_ERR, errno ex_world, ex_ctx, ex_world) \<and> PAM_AUTH_ERR \<noteq> PAM_SUCCESS"
    by (rule k5login_bad_owner [where pw = "\<lparr>pw_uid = 1000, pw_dir = ''/home/bob''\<rparr>"
          and f = "\<lparr>st_uid = Inr 1001, bytes = ex_k5login\<rparr>" and uid = 1001])
       (simp_all add: ex_foreign_env_def ex_env_def ex_ctx_def)
  then show ?thesis by (simp add: ex_world_def)
qed

text \<open>
  Claim C8. When the trust file is accepted (opened, owned by the account or by uid 0)
  and none of its lines parses as an identity, trust-file authentication fails with
  \<open>PAM_AUTH_ERR\<close>, the error reported by reference is
  \<open>KRB5KRB_AP_ERR_BAD_INTEGRITY\<close>, and no exchange is attempted.
\<close>

theorem k5login_no_valid_line:
  assumes "pamk5_compat_getpwnam E (name c) = Some pw"
      and "alloc_ok E Filename"
      and "access_R_OK E (pw_dir pw @ ''/.k5login'')"
      and "fopen_r E (pw_dir pw @ ''/.k5login'') = Inr f"
      and "st_uid f = Inr uid"
      and "uid = 0 \<or> uid = pw_uid pw"
      and "k5login_lines (bytes f) = Some ls"
      and "\<forall>l\<in>set ls. fst (krb5_parse_name E l) \<noteq> 0"
  shows "\<exists>w'. k5login_password_auth E c cr opts service pass w
                 = Some (PAM_AUTH_ERR, KRB5KRB_AP_ERR_BAD_INTEGRITY, c, w')
             \<and> attempted (trace w') = attempted (trace w)"
  using k5login_accepted [OF assms(1-7)] try_lines_no_candidate [OF assms(8)]
  by simp

text \<open>A trust file that holds a comment and an empty line.\<close>

theorem k5login_no_valid_line_witness:
  "k5login_lines (''# nobody'' @ [CHR 0x0A] @ [CHR 0x0A]) = Some [''# nobody'', []]
   \<and> fst (ex_parse ''# nobody'') \<noteq> 0 \<and> fst (ex_parse []) \<noteq> 0
   \<and> (\<exists>w'. k5login_password_auth
          (ex_env\<lparr>fopen_r := (\<lambda>fn. Inr \<lparr>st_uid = Inr 0,
                                         bytes = ''# nobody'' @ [CHR 0x0A] @ [CHR 0x0A]\<rparr>)\<rparr>)
          ex_ctx 0 opt_init None (Some ''secret'') ex_world
        = Some (PAM_AUTH_ERR, KRB5KRB_AP_ERR_BAD_INTEGRITY, ex_ctx, w')
        \<and> attempted (trace w') = attempted (trace ex_world))"
proof -
  let ?f = "\<lparr>st_uid = Inr 0, bytes = ''# nobody'' @ [CHR 0x0A] @ [CHR 0x0A]\<rparr>"
  let ?E = "ex_env\<lparr>fopen_r := (\<lambda>fn. Inr ?f)\<rparr>"
  have lines: "k5login_lines (''# nobody'' @ [CHR 0x0A] @ [CHR 0x0A]) = Some [''# nobody'', []]"
    by (simp add: k5login_eval)
  have bad: "fst (ex_parse ''# nobody'') \<noteq> 0 \<and> fst (ex_parse []) \<noteq> 0"
    by (simp add: ex_parse_def KRB5_PARSE_MALFORMED_def)
  have "\<exists>w'. k5login_password_auth ?E ex_ctx 0 opt_init None (Some ''secret'') ex_world
                 = Some (PAM_AUTH_ERR, KRB5KRB_AP_ERR_BAD_INTEGRITY, ex_ctx, w')
             \<and> attempted (trace w') = attempted (trace ex_world)"
    by (rule k5login_no_valid_line [where pw = "\<lparr>pw_uid = 1000, pw_dir = ''/home/bob''\<rparr>"
          and f = ?f and uid = 0 and ls = "[''# nobody'', []]"])
       (use lines bad in \<open>simp_all add: ex_env_def ex_ctx_def\<close>)
  with lines bad show ?thesis by simp
qed

subsection \<open>Trust files that are texts\<close>

text \<open>
  On a file without NUL bytes the loop extracts the lines of the text that fit the
  buffer: \<open>strlen\<close> is then the number of bytes \<open>fgets\<close> stored.
\<close>

lemma file_lines_fragment: "CHR 0x0A \<notin> set s \<Longrightarrow> file_lines s = []"
  by (induction s) auto

lemma file_lines_line:
  "CHR 0x0A \<notin> set t \<Longrightarrow> file_lines (t @ CHR 0x0A # rest) = t # file_lines rest"
  by (induction t) auto

lemma strlen_text: "CHR 0x00 \<notin> set s \<Longrightarrow> strlen s = length s"
proof -
  assume "CHR 0x00 \<notin> set s"
  then have "takeWhile (\<lambda>ch. ch \<noteq> CHR 0x00) s = s" by (induction s) auto
  then show ?thesis unfolding strlen_def by (rule arg_cong)
qed

lemma last_is_newline_text:
  assumes "line \<noteq> []" and "CHR 0x00 \<notin> set line"
  shows "last_is_newline line = Some (last line = CHR 0x0A)"
  using assms by (simp add: last_is_newline_def strlen_text last_conv_nth)

lemma fgets_line:
  assumes "CHR 0x0A \<notin> set t" and "length t < n - 1"
  shows "fgets n (t @ CHR 0x0A # rest) = Some (t @ [CHR 0x0A], rest)"
proof -
  from assms(1) have "takeWhile (\<lambda>ch. ch \<noteq> CHR 0x0A) (t @ CHR 0x0A # rest) = t"
    by (induction t) auto
  with assms(2) show ?thesis by (simp add: fgets_def)
qed

lemma fgets_long_line:
  assumes "CHR 0x0A \<notin> set t" and "\<not> length t < n - 1"
  shows "fgets n (t @ CHR 0x0A # rest)
           = Some (take (n - 1) t, drop (n - 1) t @ CHR 0x0A # rest)"
proof -
  from assms(1) have "takeWhile (\<lambda>ch. ch \<noteq> CHR 0x0A) (t @ CHR 0x0A # rest) = t"
    by (induction t) auto
  with assms(2) show ?thesis by (simp add: fgets_def)
qed

lemma fgets_fragment:
  assumes "CHR 0x0A \<notin> set s" and "s \<noteq> []"
  shows "fgets n s = Some (take (n - 1) s, drop (n - 1) s)"
proof -
  from assms(1) have tw: "takeWhile (\<lambda>ch. ch \<noteq> CHR 0x0A) s = s"
    by (induction s) auto
  show ?thesis unfolding fgets_def Let_def tw using assms(2) by simp
qed

text \<open>A buffer filled from bytes without line feed does not end with one.\<close>

lemma chunk_not_newline:
  assumes "CHR 0x0A \<notin> set t" and "CHR 0x00 \<notin> set t" and "t \<noteq> []"
  shows "last_is_newline (take (BUFSIZ - 1) t) = Some False"
proof -
  let ?line = "take (BUFSIZ - 1) t"
  from assms(3) have ne: "?line \<noteq> []" by (simp add: BUFSIZ_def)
  have sub: "set ?line \<subseteq> set t" by (rule set_take_subset)
  with assms(2) have "CHR 0x00 \<notin> set ?line" by blast
  from last_is_newline_text [OF ne this]
  have "last_is_newline ?line = Some (last ?line = CHR 0x0A)" .
  moreover from ne have "last ?line \<in> set ?line" by (rule last_in_set)
  with sub assms(1) have "last ?line \<noteq> CHR 0x0A" by auto
  ultimately show ?thesis by simp
qed

lemma skip_to_newline_fragment:
  "CHR 0x0A \<notin> set s \<Longrightarrow> CHR 0x00 \<notin> set s \<Longrightarrow> skip_to_newline s = Some []"
proof (induction s rule: skip_to_newline.induct)
  case (1 s)
  show ?case
  proof (cases "s = []")
    case True
    then show ?thesis by (simp add: skip_to_newline.simps [of "[]"] fgets_def)
  next
    case False
    from fgets_fragment [OF "1.prems"(1) False]
    have got: "fgets BUFSIZ s = Some (take (BUFSIZ - 1) s, drop (BUFSIZ - 1) s)" .
    from chunk_not_newline [OF "1.prems" False]
    have nl: "last_is_newline (take (BUFSIZ - 1) s) = Some False" .
    have "set (drop (BUFSIZ - 1) s) \<subseteq> set s" by (rule set_drop_subset)
    with "1.prems" have "CHR 0x0A \<notin> set (drop (BUFSIZ - 1) s)" "CHR 0x00 \<notin> set (drop (BUFSIZ - 1) s)"
      by auto
    with "1.IH" [OF got refl nl] have "skip_to_newline (drop (BUFSIZ - 1) s) = Some []" by simp
    with got nl show ?thesis by (simp add: skip_to_newline.simps [of s])
  qed
qed

lemma skip_to_newline_line:
  "CHR 0x0A \<notin> set t \<Longrightarrow> CHR 0x00 \<notin> set t \<Longrightarrow>
   skip_to_newline (t @ CHR 0x0A # rest) = Some rest"
proof (induction t rule: length_induct)
  case (1 t)
  let ?s = "t @ CHR 0x0A # rest"
  show ?case
  proof (cases "length t < BUFSIZ - 1")
    case True
    from fgets_line [OF "1.prems"(1) True]
    have got: "fgets BUFSIZ ?s = Some (t @ [CHR 0x0A], rest)" .
    from "1.prems"(2) have "CHR 0x00 \<notin> set (t @ [CHR 0x0A])" by simp
    from last_is_newline_text [OF _ this]
    have "last_is_newline (t @ [CHR 0x0A]) = Some True" by simp
    with got show ?thesis by (simp add: skip_to_newline.simps [of ?s])
  next
    case False
    from fgets_long_line [OF "1.prems"(1) False]
    have got: "fgets BUFSIZ ?s
        = Some (take (BUFSIZ - 1) t, drop (BUFSIZ - 1) t @ CHR 0x0A # rest)" .
    from False have ne: "t \<noteq> []" by (auto simp: BUFSIZ_def)
    from chunk_not_newline [OF "1.prems" ne]
    have nl: "last_is_newline (take (BUFSIZ - 1) t) = Some False" .
    from ne have shorter: "length (drop (BUFSIZ - 1) t) < length t"
      by (simp add: BUFSIZ_def)
    have "set (drop (BUFSIZ - 1) t) \<subseteq> set t" by (rule set_drop_subset)
    with "1.prems" have "CHR 0x0A \<notin> set (drop (BUFSIZ - 1) t)" "CHR 0x00 \<notin> set (drop (BUFSIZ - 1) t)"
      by auto
    with "1.IH" shorter
    have "skip_to_newline (drop (BUFSIZ - 1) t @ CHR 0x0A # rest) = Some rest" by blast
    with got nl show ?thesis by (simp add: skip_to_newline.simps [of ?s])
  qed
qed

lemma k5login_lines_fragment:
  assumes "CHR 0x0A \<notin> set s" and "CHR 0x00 \<notin> set s"
  shows "k5login_lines s = Some []"
proof (cases "s = []")
  case True
  then show ?thesis by (simp add: k5login_lines.simps [of "[]"] fgets_def)
next
  case False
  from fgets_fragment [OF assms(1) False]
  have got: "fgets BUFSIZ s = Some (take (BUFSIZ - 1) s, drop (BUFSIZ - 1) s)" .
  from chunk_not_newline [OF assms False]
  have nl: "last_is_newline (take (BUFSIZ - 1) s) = Some False" .
  have "set (drop (BUFSIZ - 1) s) \<subseteq> set s" by (rule set_drop_subset)
  with assms have "CHR 0x0A \<notin> set (drop (BUFSIZ - 1) s)" "CHR 0x00 \<notin> set (drop (BUFSIZ - 1) s)"
    by auto
  then have skip: "skip_to_newline (drop (BUFSIZ - 1) s) = Some []"
    by (rule skip_to_newline_fragment)
  have "k5login_lines [] = Some []" by (simp add: k5login_lines.simps [of "[]"] fgets_def)
  with got nl skip show ?thesis by (simp add: k5login_lines.simps [of s])
qed

lemma k5login_lines_text:
  "CHR 0x00 \<notin> set s \<Longrightarrow> k5login_lines s = Some (trust_file_lines s)"
proof (induction s rule: k5login_lines.induct)
  case (1 s)
  show ?case
  proof (cases "CHR 0x0A \<in> set s")
    case False
    with "1.prems" show ?thesis
      by (simp add: k5login_lines_fragment trust_file_lines_def file_lines_fragment)
  next
    case True
    from split_list_first [OF True]
    obtain t rest where s: "s = t @ CHR 0x0A # rest" and t: "CHR 0x0A \<notin> set t" by blast
    from "1.prems" s have nul: "CHR 0x00 \<notin> set t" "CHR 0x00 \<notin> set rest" by simp_all
    have lines: "file_lines s = t # file_lines rest"
      unfolding s using t by (rule file_lines_line)
    show ?thesis
    proof (cases "length t < BUFSIZ - 1")
      case fits: True
      from fgets_line [OF t fits]
      have got: "fgets BUFSIZ s = Some (t @ [CHR 0x0A], rest)" unfolding s .
      from nul(1) have stored: "CHR 0x00 \<notin> set (t @ [CHR 0x0A])" by simp
      from last_is_newline_text [OF _ stored]
      have nl: "last_is_newline (t @ [CHR 0x0A]) = Some True" by simp
      from "1.IH"(2) [OF got refl nl _ nul(2)]
      have rest: "k5login_lines rest = Some (trust_file_lines rest)" by simp
      have "take (strlen (t @ [CHR 0x0A]) - 1) (t @ [CHR 0x0A]) = t"
        using strlen_text [OF stored] by simp
      with got nl rest have "k5login_lines s = Some (t # trust_file_lines rest)"
        by (simp add: k5login_lines.simps [of s])
      with lines fits show ?thesis by (simp add: trust_file_lines_def)
    next
      case long: False
      from fgets_long_line [OF t long]
      have got: "fgets BUFSIZ s
          = Some (take (BUFSIZ - 1) t, drop (BUFSIZ - 1) t @ CHR 0x0A # rest)" unfolding s .
      from long have ne: "t \<noteq> []" by (auto simp: BUFSIZ_def)
      from chunk_not_newline [OF t nul(1) ne]
      have nl: "last_is_newline (take (BUFSIZ - 1) t) = Some False" .
      have "set (drop (BUFSIZ - 1) t) \<subseteq> set t" by (rule set_drop_subset)
      with t nul(1)
      have "CHR 0x0A \<notin> set (drop (BUFSIZ - 1) t)" "CHR 0x00 \<notin> set (drop (BUFSIZ - 1) t)"
        by auto
      then have skip: "skip_to_newline (drop (BUFSIZ - 1) t @ CHR 0x0A # rest) = Some rest"
        by (rule skip_to_newline_line)
      from "1.IH"(1) [OF got refl nl _ skip nul(2)]
      have rest: "k5login_lines rest = Some (trust_file_lines rest)" by simp
      with got nl skip have "k5login_lines s = Some (trust_file_lines rest)"
        by (simp add: k5login_lines.simps [of s])
      with lines long show ?thesis by (simp add: trust_file_lines_def)
    qed
  qed
qed

text \<open>
  On a trust file without NUL bytes the first success wins. When the file is accepted
  and candidate \<open>k\<close> is the first whose exchange succeeds with the supplied password
  (in particular when it is the only one), trust-file authentication returns
  \<open>PAM_SUCCESS\<close>, the context's identity is candidate \<open>k\<close>, and the exchanges attempted
  are those of the candidates up to \<open>k\<close>, in file order: none after \<open>k\<close>.
\<close>

theorem k5login_text_first_success:
  assumes "pamk5_compat_getpwnam E (name c) = Some pw"
      and "alloc_ok E Filename"
      and "access_R_OK E (pw_dir pw @ ''/.k5login'')"
      and "fopen_r E (pw_dir pw @ ''/.k5login'') = Inr f"
      and "st_uid f = Inr uid"
      and "uid = 0 \<or> uid = pw_uid pw"
      and "CHR 0x00 \<notin> set (bytes f)"
      and "k < length (candidates E (trust_file_lines (bytes f)))"
      and "kdc E (Some (candidates E (trust_file_lines (bytes f)) ! k)) pass service opts = 0"
      and "\<forall>j<k. kdc E (Some (candidates E (trust_file_lines (bytes f)) ! j)) pass service opts \<noteq> 0"
  shows "\<exists>w'. k5login_password_auth E c cr opts service pass w
                 = Some (PAM_SUCCESS, 0,
                         c\<lparr>princ := Some (candidates E (trust_file_lines (bytes f)) ! k)\<rparr>, w')
             \<and> attempted (trace w')
                 = attempted (trace w)
                   @ map Some (take (Suc k) (candidates E (trust_file_lines (bytes f))))"
  using k5login_accepted [OF assms(1-6) k5login_lines_text [OF assms(7)]]
        try_lines_first_success [OF assms(8-10)]
  by simp

text \<open>The trust file of the example: the second candidate is the one the password fits.\<close>

theorem k5login_text_first_success_witness:
  "CHR 0x00 \<notin> set ex_k5login
   \<and> trust_file_lines ex_k5login
     = [''bob@OTHER.ORG'', ''# comment'', ''bob@EXAMPLE.ORG'', ''carol@EXAMPLE.ORG'']
   \<and> candidates ex_env [''bob@OTHER.ORG'', ''# comment'', ''bob@EXAMPLE.ORG'', ''carol@EXAMPLE.ORG'']
     = [\<lparr>princ_name = [''bob''], princ_realm = ''OTHER.ORG''\<rparr>, bob,
        \<lparr>princ_name = [''carol''], princ_realm = ''EXAMPLE.ORG''\<rparr>]
   \<and> kdc ex_env (Some \<lparr>princ_name = [''bob''], princ_realm = ''OTHER.ORG''\<rparr>) (Some ''secret'')
        None opt_init \<noteq> 0
   \<and> kdc ex_env (Some bob) (Some ''secret'') None opt_init = 0
   \<and> (\<exists>w'. k5login_password_auth ex_env ex_ctx 0 opt_init None (Some ''secret'') ex_world
               = Some (PAM_SUCCESS, 0, ex_ctx\<lparr>princ := Some bob\<rparr>, w')
           \<and> attempted (trace w')
               = [Some \<lparr>princ_name = [''bob''], princ_realm = ''OTHER.ORG''\<rparr>, Some bob])"
proof -
  let ?ls = "[''bob@OTHER.ORG'', ''# comment'', ''bob@EXAMPLE.ORG'', ''carol@EXAMPLE.ORG'']"
  let ?other = "\<lparr>princ_name = [''bob''], princ_realm = ''OTHER.ORG''\<rparr>"
  let ?f = "\<lparr>st_uid = Inr 1000, bytes = ex_k5login\<rparr>"
  have nul: "CHR 0x00 \<notin> set ex_k5login" by (simp add: ex_k5login_def)
  have lines: "trust_file_lines ex_k5login = ?ls"
    by (simp add: trust_file_lines_def ex_k5login_def BUFSIZ_def)
  have cands: "candidates ex_env ?ls
      = [?other, bob, \<lparr>princ_name = [''carol''], princ_realm = ''EXAMPLE.ORG''\<rparr>]"
    by (simp add: candidates_def ex_env_def ex_parse_def bob_def KRB5_PARSE_MALFORMED_def)
  have k0: "kdc ex_env (Some ?other) (Some ''secret'') None opt_init \<noteq> 0"
    by (simp add: ex_env_def bob_def krb5_codes)
  have k1: "kdc ex_env (Some bob) (Some ''secret'') None opt_init = 0"
    by (simp add: ex_env_def)
  have "\<exists>w'. k5login_password_auth ex_env ex_ctx 0 opt_init None (Some ''secret'') ex_world
                 = Some (PAM_SUCCESS, 0,
                         ex_ctx\<lparr>princ := Some (candidates ex_env (trust_file_lines (bytes ?f)) ! 1)\<rparr>, w')
             \<and> attempted (trace w')
                 = attempted (trace ex_world)
                   @ map Some (take (Suc 1) (candidates ex_env (trust_file_lines (bytes ?f))))"
    by (rule k5login_text_first_success [where pw = "\<lparr>pw_uid = 1000, pw_dir = ''/home/bob''\<rparr>"
          and f = ?f and uid = 1000])
       (use nul lines cands k0 k1 in \<open>simp_all add: ex_env_def ex_ctx_def\<close>)
  with nul lines cands k0 k1 show ?thesis by (simp add: ex_world_def)
qed

text \<open>
  Claim C3 at a failing input. The trust file of \<open>bob\<close>, owned by \<open>bob\<close>, holds a
  comment line with a NUL byte and then the line \<open>bob@EXAMPLE.ORG\<close>, its only
  candidate, whose exchange succeeds with the password. For the first buffer \<open>strlen\<close>
  stops at the NUL, the byte before it is not a line feed, and the buffer is taken
  for the start of a line that did not fit: the inner loop reads on to the next line
  feed, which is the end of the candidate's line. The candidate is never parsed, no
  exchange is attempted and the result is \<open>PAM_AUTH_ERR\<close>.
\<close>

theorem k5login_nul_line_skips_candidate:
  "file_lines ex_nul_k5login = [''#'' @ [CHR 0x00], ''bob@EXAMPLE.ORG'']
   \<and> candidates ex_nul_env (trust_file_lines ex_nul_k5login) = [bob]
   \<and> kdc ex_nul_env (Some bob) (Some ''secret'') None opt_init = 0
   \<and> k5login_password_auth ex_nul_env ex_ctx 0 opt_init None (Some ''secret'') ex_world
       = Some (PAM_AUTH_ERR, KRB5KRB_AP_ERR_BAD_INTEGRITY, ex_ctx, ex_world)"
  by (simp add: k5login_password_auth_def k5login_loop.simps skip_to_newline.simps fgets_def
        last_is_newline_def strlen_def BUFSIZ_def trust_file_lines_def candidates_def
        ex_nul_env_def ex_nul_k5login_def ex_defs)



section \<open>Properties of principal resolution\<close>





text \<open>
  When the prompt fails and the account name is empty, the name is freed and then
  read: the run has no defined result.
\<close>

lemma parse_name_freed_name:
  "parse_name (ex_env\<lparr>pamk5_conv := (\<lambda>msg. (PAM_CONV_ERR, []))\<rparr>)
      (ex_args\<lparr>prompt_princ := True, realm := Some ''EXAMPLE.ORG''\<rparr>)
      \<lparr>name = [], princ = None\<rparr> ex_world = None"
  by (simp add: parse_name_def working_name_def ex_defs pam_codes)


section \<open>Properties of the orchestrator\<close>

lemmas auth_eval = password_auth_body_def parse_name_def working_name_def pkinit_stage_def
  calloc_creds_def log_def set_credential_options_def opt_init_def authtok_def
  prompt_password_def pamk5_get_password_def get_tgt_def krb5_get_init_creds_password_def
  password_loop.simps stored_password_def Let_def

lemma prompts_append: "prompts (xs @ ys) = prompts xs + prompts ys"
  by (induction xs rule: prompts.induct) simp_all

lemma exchange_prompts:
  "krb5_get_init_creds_password E cr pr pw service opts w = (rv, w') \<Longrightarrow>
   prompts (trace w') = prompts (trace w)"
  by (auto simp: krb5_get_init_creds_password_def Let_def log_def prompts_append split: if_splits)

lemma k5login_loop_prompts:
  "k5login_loop E cr opts service pass s retval c w = Some (st, rv, c', w') \<Longrightarrow>
   prompts (trace w') = prompts (trace w)"
proof (induction E cr opts service pass s retval c w rule: k5login_loop.induct)
  case (1 E cr opts service pass s retval c w)
  show ?case
  proof (cases "fgets BUFSIZ s")
    case None
    with "1.prems" show ?thesis by (simp add: k5login_loop.simps [of _ _ _ _ _ s])
  next
    case (Some lr)
    obtain line rest where got: "fgets BUFSIZ s = Some (line, rest)"
      using Some by (cases lr) simp
    show ?thesis
    proof (cases "last_is_newline line")
      case None
      with "1.prems" got show ?thesis by (simp add: k5login_loop.simps [of _ _ _ _ _ s])
    next
      case nl: (Some nl)
      show ?thesis
      proof (cases nl)
        case False
        show ?thesis
        proof (cases "skip_to_newline rest")
          case None
          with "1.prems" got nl False show ?thesis
            by (simp add: k5login_loop.simps [of _ _ _ _ _ s])
        next
          case (Some rest')
          with "1.prems" got nl False
          have "k5login_loop E cr opts service pass rest' retval c w = Some (st, rv, c', w')"
            by (simp add: k5login_loop.simps [of _ _ _ _ _ s])
          with "1.IH"(1) got nl False Some show ?thesis by simp
        qed
      next
        case True
        let ?u = "take (strlen line - 1) line"
        let ?w1 = "log (ParseName ?u) w"
        have w1: "prompts (trace ?w1) = prompts (trace w)"
          by (simp add: log_def prompts_append)
        obtain k5 p where parse: "krb5_parse_name E ?u = (k5, p)"
          by (cases "krb5_parse_name E ?u")
        show ?thesis
        proof (cases "k5 = 0")
          case False
          with "1.prems" got nl True parse
          have "k5login_loop E cr opts service pass rest retval c ?w1 = Some (st, rv, c', w')"
            by (simp add: k5login_loop.simps [of _ _ _ _ _ s])
          with "1.IH"(2) got nl True parse False w1 show ?thesis by simp
        next
          case k5: True
          obtain r w2 where ex: "krb5_get_init_creds_password E cr (Some p) pass service opts ?w1
                = (r, w2)"
            by (cases "krb5_get_init_creds_password E cr (Some p) pass service opts ?w1")
          have w2: "prompts (trace w2) = prompts (trace w)"
            using exchange_prompts [OF ex] w1 by simp
          show ?thesis
          proof (cases "r = 0")
            case True
            with "1.prems" got nl \<open>nl\<close> parse k5 ex have "w' = w2"
              by (simp add: k5login_loop.simps [of _ _ _ _ _ s])
            with w2 show ?thesis by simp
          next
            case False
            with "1.prems" got nl \<open>nl\<close> parse k5 ex
            have "k5login_loop E cr opts service pass rest r c w2 = Some (st, rv, c', w')"
              by (simp add: k5login_loop.simps [of _ _ _ _ _ s])
            with "1.IH"(3) got nl \<open>nl\<close> parse k5 ex False w2 show ?thesis by simp
          qed
        qed
      qed
    qed
  qed
qed

lemma k5login_password_auth_prompts:
  assumes "k5login_password_auth E c cr opts service pass w = Some (st, rv, c', w')"
  shows "prompts (trace w') = prompts (trace w)"
proof -
  obtain r w1 where ex: "krb5_get_init_creds_password E cr (princ c) pass service opts w = (r, w1)"
    by (cases "krb5_get_init_creds_password E cr (princ c) pass service opts w")
  note direct = exchange_prompts [OF ex]
  from assms ex direct show ?thesis
    by (auto simp: k5login_password_auth_def Let_def
             split: option.splits if_splits sum.splits dest: k5login_loop_prompts)
qed

lemma get_tgt_prompts:
  assumes "get_tgt E args c cr opts service pass w = Some (st, rv, c', w')"
  shows "prompts (trace w') = prompts (trace w)"
proof (cases "search_k5login args")
  case True
  with assms show ?thesis by (simp add: get_tgt_def k5login_password_auth_prompts)
next
  case False
  obtain r w1 where ex: "krb5_get_init_creds_password E cr (princ c) pass service opts w = (r, w1)"
    by (cases "krb5_get_init_creds_password E cr (princ c) pass service opts w")
  with assms False exchange_prompts [OF ex] show ?thesis
    by (auto simp: get_tgt_def)
qed

lemma prompt_password_prompts:
  "prompt_password E service w = Got pass1 w1 \<Longrightarrow> prompts (trace w1) = Suc (prompts (trace w))"
  "prompt_password E service w = Failed w1 \<Longrightarrow> prompts (trace w1) = Suc (prompts (trace w))"
  by (auto simp: prompt_password_def pamk5_get_password_def log_def prompts_append Let_def
           split: list.splits if_splits prod.splits)

lemma password_loop_prompt_bound:
  "password_loop E args c cr opts service pass retry w = Some (rv, cv, c', w') \<Longrightarrow>
   prompts (trace w') \<le> Suc (prompts (trace w))"
proof (cases pass)
  case None
  assume run: "password_loop E args c cr opts service pass retry w = Some (rv, cv, c', w')"
  show ?thesis
  proof (cases "prompt_password E service w")
    case (Failed w1)
    with run None have "w' = w1" by (simp add: password_loop.simps [of _ _ _ _ _ _ None])
    with prompt_password_prompts(2) [OF Failed] show ?thesis by simp
  next
    case (Got pass1 w1)
    with run None obtain st c1 where
      "get_tgt E args c cr opts service pass1 w1 = Some (st, rv, c1, w')"
      by (auto simp: password_loop.simps [of _ _ _ _ _ _ None] split: option.splits if_splits)
    from get_tgt_prompts [OF this] prompt_password_prompts(1) [OF Got] show ?thesis by simp
  next
    case Dangling
    with run None show ?thesis by (simp add: password_loop.simps [of _ _ _ _ _ _ None])
  qed
next
  case (Some pw)
  assume run: "password_loop E args c cr opts service pass retry w = Some (rv, cv, c', w')"
  from run Some obtain st r c1 w1 where
    tgt: "get_tgt E args c cr opts service (Some pw) w = Some (st, r, c1, w1)"
    by (auto simp: password_loop.simps [of _ _ _ _ _ _ "Some pw"] split: option.splits)
  note p1 = get_tgt_prompts [OF tgt]
  show ?thesis
  proof (cases "st \<noteq> PAM_SUCCESS \<and> retry \<and> r = KRB5KRB_AP_ERR_BAD_INTEGRITY")
    case False
    with run Some tgt have "w' = w1"
      by (auto simp: password_loop.simps [of _ _ _ _ _ _ "Some pw"] split: if_splits)
    with p1 show ?thesis by simp
  next
    case True
    with run Some tgt have
      again: "password_loop E args c1 cr opts service None retry w1 = Some (rv, cv, c', w')"
      by (simp add: password_loop.simps [of _ _ _ _ _ _ "Some pw"])
    show ?thesis
    proof (cases "prompt_password E service w1")
      case (Failed w2)
      with again have "w' = w2" by (simp add: password_loop.simps [of _ _ _ _ _ _ None])
      with prompt_password_prompts(2) [OF Failed] p1 show ?thesis by simp
    next
      case (Got pass1 w2)
      with again obtain st2 c2 where
        "get_tgt E args c1 cr opts service pass1 w2 = Some (st2, rv, c2, w')"
        by (auto simp: password_loop.simps [of _ _ _ _ _ _ None] split: option.splits if_splits)
      from get_tgt_prompts [OF this] prompt_password_prompts(1) [OF Got] p1 show ?thesis by simp
    next
      case Dangling
      with again show ?thesis by (simp add: password_loop.simps [of _ _ _ _ _ _ None])
    qed
  qed
qed

text \<open>
  Claim C4, amended. In the password loop: (1) when a pass made with a stored password
  fails with \<open>KRB5KRB_AP_ERR_BAD_INTEGRITY\<close> while \<open>retry\<close> is set, \<open>pass\<close> is cleared and
  the loop runs again; (2) a pass that starts without a password prompts once and is
  the last pass whatever its attempt returns, because prompting clears \<open>retry\<close>; (3) a
  failure with any other code ends the loop at once; (4) so no run of the loop prompts
  more than once.
\<close>

theorem password_loop_single_retry:
  "(\<forall>pw st c1 w1.
       retry \<and> st \<noteq> PAM_SUCCESS
       \<and> get_tgt E args c cr opts service (Some pw) w
           = Some (st, KRB5KRB_AP_ERR_BAD_INTEGRITY, c1, w1)
       \<longrightarrow> password_loop E args c cr opts service (Some pw) retry w
           = password_loop E args c1 cr opts service None retry w1)
   \<and> password_loop E args c cr opts service None retry w
       = (case prompt_password E service w of
            Dangling \<Rightarrow> None
          | Failed w1 \<Rightarrow> Some (PAM_SERVICE_ERR, False, c, w1)
          | Got pass1 w1 \<Rightarrow>
              (case get_tgt E args c cr opts service pass1 w1 of
                 None \<Rightarrow> None
               | Some (st, rv, c1, w2) \<Rightarrow> Some (rv, rv = 0, c1, w2)))
   \<and> (\<forall>pw st rv c1 w1.
         st \<noteq> PAM_SUCCESS \<and> rv \<noteq> KRB5KRB_AP_ERR_BAD_INTEGRITY
         \<and> get_tgt E args c cr opts service (Some pw) w = Some (st, rv, c1, w1)
         \<longrightarrow> password_loop E args c cr opts service (Some pw) retry w = Some (rv, rv = 0, c1, w1))
   \<and> (\<forall>rv cv c' w'.
         password_loop E args c cr opts service pass retry w = Some (rv, cv, c', w')
         \<longrightarrow> prompts (trace w') \<le> Suc (prompts (trace w)))"
proof (intro conjI allI impI)
  fix pw st c1 w1
  assume "retry \<and> st \<noteq> PAM_SUCCESS
       \<and> get_tgt E args c cr opts service (Some pw) w
           = Some (st, KRB5KRB_AP_ERR_BAD_INTEGRITY, c1, w1)"
  then show "password_loop E args c cr opts service (Some pw) retry w
           = password_loop E args c1 cr opts service None retry w1"
    by (simp add: password_loop.simps [of _ _ _ _ _ _ "Some pw"])
next
  show "password_loop E args c cr opts service None retry w
       = (case prompt_password E service w of
            Dangling \<Rightarrow> None
          | Failed w1 \<Rightarrow> Some (PAM_SERVICE_ERR, False, c, w1)
          | Got pass1 w1 \<Rightarrow>
              (case get_tgt E args c cr opts service pass1 w1 of
                 None \<Rightarrow> None
               | Some (st, rv, c1, w2) \<Rightarrow> Some (rv, rv = 0, c1, w2)))"
    by (simp add: password_loop.simps [of _ _ _ _ _ _ None] split: prompted.splits option.splits)
next
  fix pw st rv c1 w1
  assume "st \<noteq> PAM_SUCCESS \<and> rv \<noteq> KRB5KRB_AP_ERR_BAD_INTEGRITY
         \<and> get_tgt E args c cr opts service (Some pw) w = Some (st, rv, c1, w1)"
  then show "password_loop E args c cr opts service (Some pw) retry w = Some (rv, rv = 0, c1, w1)"
    by (simp add: password_loop.simps [of _ _ _ _ _ _ "Some pw"])
next
  fix rv cv c' w'
  assume "password_loop E args c cr opts service pass retry w = Some (rv, cv, c', w')"
  then show "prompts (trace w') \<le> Suc (prompts (trace w))"
    by (rule password_loop_prompt_bound)
qed

text \<open>
  The stale password \<open>old\<close> is refused, the loop prompts, \<open>wrong\<close> is refused too and
  the loop ends with the second answer unread. With an identity the authority does
  not know the first failure ends the loop.
\<close>

theorem password_loop_single_retry_witness:
  "get_tgt ex_env ex_args (ex_ctx\<lparr>princ := Some bob\<rparr>) 0 opt_init None (Some ''old'') ex_retry_world
     = Some (PAM_AUTH_ERR, KRB5KRB_AP_ERR_BAD_INTEGRITY, ex_ctx\<lparr>princ := Some bob\<rparr>,
             log (Exchange (Some bob) (Some ''old'') None KRB5KRB_AP_ERR_BAD_INTEGRITY)
               ex_retry_world)
   \<and> PAM_AUTH_ERR \<noteq> PAM_SUCCESS
   \<and> password_loop ex_env ex_args (ex_ctx\<lparr>princ := Some bob\<rparr>) 0 opt_init None (Some ''old'') True
        ex_retry_world
     = password_loop ex_env ex_args (ex_ctx\<lparr>princ := Some bob\<rparr>) 0 opt_init None None True
         (log (Exchange (Some bob) (Some ''old'') None KRB5KRB_AP_ERR_BAD_INTEGRITY) ex_retry_world)
   \<and> (\<exists>w'. password_loop ex_env ex_args (ex_ctx\<lparr>princ := Some bob\<rparr>) 0 opt_init None
               (Some ''old'') True ex_retry_world
             = Some (KRB5KRB_AP_ERR_BAD_INTEGRITY, False, ex_ctx\<lparr>princ := Some bob\<rparr>, w')
           \<and> replies w' = [(0, ''secret'')]
           \<and> prompts (trace w') \<le> Suc (prompts (trace ex_retry_world)))
   \<and> get_tgt ex_env ex_args (ex_ctx\<lparr>princ := None\<rparr>) 0 opt_init None (Some ''old'') ex_retry_world
     = Some (PAM_AUTH_ERR, KRB5KDC_ERR_C_PRINCIPAL_UNKNOWN, ex_ctx\<lparr>princ := None\<rparr>,
             log (Exchange None (Some ''old'') None KRB5KDC_ERR_C_PRINCIPAL_UNKNOWN) ex_retry_world)
   \<and> KRB5KDC_ERR_C_PRINCIPAL_UNKNOWN \<noteq> KRB5KRB_AP_ERR_BAD_INTEGRITY
   \<and> password_loop ex_env ex_args (ex_ctx\<lparr>princ := None\<rparr>) 0 opt_init None (Some ''old'') True
        ex_retry_world
     = Some (KRB5KDC_ERR_C_PRINCIPAL_UNKNOWN, False, ex_ctx\<lparr>princ := None\<rparr>,
             log (Exchange None (Some ''old'') None KRB5KDC_ERR_C_PRINCIPAL_UNKNOWN) ex_retry_world)"
proof -
  let ?c = "ex_ctx\<lparr>princ := Some bob\<rparr>"
  let ?w1 = "log (Exchange (Some bob) (Some ''old'') None KRB5KRB_AP_ERR_BAD_INTEGRITY) ex_retry_world"
  let ?w1' = "log (Exchange None (Some ''old'') None KRB5KDC_ERR_C_PRINCIPAL_UNKNOWN) ex_retry_world"
  note thm1 = password_loop_single_retry [where E = ex_env and args = ex_args and c = ?c
      and cr = 0 and opts = opt_init and service = None and w = ex_retry_world and retry = True
      and pass = "Some ''old''"]
  note thm2 = password_loop_single_retry [where E = ex_env and args = ex_args
      and c = "ex_ctx\<lparr>princ := None\<rparr>"
      and cr = 0 and opts = opt_init and service = None and w = ex_retry_world and retry = True
      and pass = "Some ''old''"]
  have tgt: "get_tgt ex_env ex_args ?c 0 opt_init None (Some ''old'') ex_retry_world
     = Some (PAM_AUTH_ERR, KRB5KRB_AP_ERR_BAD_INTEGRITY, ?c, ?w1)"
    by (simp add: get_tgt_def krb5_get_init_creds_password_def Let_def ex_defs krb5_codes)
  have ne: "PAM_AUTH_ERR \<noteq> PAM_SUCCESS" by (simp add: pam_codes)
  have again: "password_loop ex_env ex_args ?c 0 opt_init None (Some ''old'') True ex_retry_world
     = password_loop ex_env ex_args ?c 0 opt_init None None True ?w1"
    using thm1 tgt ne by blast
  have run: "\<exists>w'. password_loop ex_env ex_args ?c 0 opt_init None (Some ''old'') True ex_retry_world
             = Some (KRB5KRB_AP_ERR_BAD_INTEGRITY, False, ?c, w') \<and> replies w' = [(0, ''secret'')]"
    unfolding again
    by (simp add: auth_eval ex_defs ex_retry_world_def pam_codes krb5_codes)
  then obtain w' where
    w': "password_loop ex_env ex_args ?c 0 opt_init None (Some ''old'') True ex_retry_world
             = Some (KRB5KRB_AP_ERR_BAD_INTEGRITY, False, ?c, w')" "replies w' = [(0, ''secret'')]"
    by blast
  from thm1 w'(1) have bound: "prompts (trace w') \<le> Suc (prompts (trace ex_retry_world))"
    by blast
  have tgt2: "get_tgt ex_env ex_args (ex_ctx\<lparr>princ := None\<rparr>) 0 opt_init None (Some ''old'')
        ex_retry_world
     = Some (PAM_AUTH_ERR, KRB5KDC_ERR_C_PRINCIPAL_UNKNOWN, ex_ctx\<lparr>princ := None\<rparr>, ?w1')"
    by (simp add: get_tgt_def krb5_get_init_creds_password_def Let_def ex_defs krb5_codes)
  have ne2: "KRB5KDC_ERR_C_PRINCIPAL_UNKNOWN \<noteq> KRB5KRB_AP_ERR_BAD_INTEGRITY"
    by (simp add: krb5_codes)
  have nz: "KRB5KDC_ERR_C_PRINCIPAL_UNKNOWN \<noteq> 0" by (simp add: krb5_codes)
  have stop: "password_loop ex_env ex_args (ex_ctx\<lparr>princ := None\<rparr>) 0 opt_init None
        (Some ''old'') True ex_retry_world
     = Some (KRB5KDC_ERR_C_PRINCIPAL_UNKNOWN, False, ex_ctx\<lparr>princ := None\<rparr>, ?w1')"
    using thm2 tgt2 ne ne2 nz by auto
  from tgt ne again w' bound tgt2 ne2 stop show ?thesis by blast
qed

text \<open>
  Claim C4, as stated, promises prompts without a cap while the attempts fail with the
  mismatch error and retry is permitted. With \<open>try_first_pass\<close> set, the stored password
  \<open>old\<close> and the first typed password \<open>wrong\<close> are both refused with the mismatch error;
  the call then fails with \<open>PAM_AUTH_ERR\<close> after one prompt and two exchanges, and the
  answer \<open>secret\<close> is never asked for.
\<close>

theorem password_loop_retry_counterexample:
  "try_first_pass (ex_args\<lparr>try_first_pass := True\<rparr>)
   \<and> pamk5_password_auth ex_build ex_env (ex_args\<lparr>try_first_pass := True\<rparr>) None None False
        ex_retry_world
     = Some (PAM_AUTH_ERR, None, Some (ex_ctx\<lparr>princ := Some bob\<rparr>),
         \<lparr>trace = [ParseName ''bob'', Calloc 0,
                    Exchange (Some bob) (Some ''old'') None KRB5KRB_AP_ERR_BAD_INTEGRITY,
                    GetPassword None,
                    Exchange (Some bob) (Some ''wrong'') None KRB5KRB_AP_ERR_BAD_INTEGRITY],
           errno = 0, items = (\<lambda>i. Some ''old'')(PAM_AUTHTOK := Some ''wrong''),
           replies = [(0, ''secret'')], structs = {}, material = (\<lambda>a. None), next_addr = 1\<rparr>)"
  by (simp add: pamk5_password_auth_def done_label_def pam_error_def free_creds_def
        krb5_free_cred_contents_def auth_eval ex_defs ex_retry_world_def pam_codes krb5_codes)

text \<open>What each stage leaves unchanged.\<close>

lemma verifications_append: "verifications (xs @ ys) = verifications xs + verifications ys"
  by (induction xs rule: verifications.induct) simp_all

text \<open>What one exchange changes: the log, and on success the material of the structure.\<close>

lemma exchange_frame:
  assumes "krb5_get_init_creds_password E cr pr pw service opts w = (rv, w')"
  shows "verifications (trace w') = verifications (trace w)"
    and "structs w' = structs w"
    and "rv \<noteq> 0 \<Longrightarrow> material w' = material w"
    and "rv = 0 \<Longrightarrow> material w' = (material w)(cr \<mapsto> Ticket pr service)"
    and "a \<noteq> cr \<Longrightarrow> material w' a = material w a"
  using assms
  by (auto simp: krb5_get_init_creds_password_def Let_def log_def verifications_append
           split: if_splits)

lemma k5login_loop_frame:
  "k5login_loop E cr opts service pass s retval c w = Some (st, rv, c', w') \<Longrightarrow>
   verifications (trace w') = verifications (trace w) \<and> structs w' = structs w
   \<and> (st = PAM_SUCCESS \<and> rv = 0 \<or> st = PAM_AUTH_ERR \<and> material w' = material w)"
proof (induction E cr opts service pass s retval c w rule: k5login_loop.induct)
  case (1 E cr opts service pass s retval c w)
  show ?case
  proof (cases "fgets BUFSIZ s")
    case None
    with "1.prems" show ?thesis by (simp add: k5login_loop.simps [of _ _ _ _ _ s])
  next
    case (Some lr)
    obtain line rest where got: "fgets BUFSIZ s = Some (line, rest)"
      using Some by (cases lr) simp
    show ?thesis
    proof (cases "last_is_newline line")
      case None
      with "1.prems" got show ?thesis by (simp add: k5login_loop.simps [of _ _ _ _ _ s])
    next
      case nl: (Some nl)
      show ?thesis
      proof (cases nl)
        case False
        show ?thesis
        proof (cases "skip_to_newline rest")
          case None
          with "1.prems" got nl False show ?thesis
            by (simp add: k5login_loop.simps [of _ _ _ _ _ s])
        next
          case (Some rest')
          with "1.prems" got nl False
          have "k5login_loop E cr opts service pass rest' retval c w = Some (st, rv, c', w')"
            by (simp add: k5login_loop.simps [of _ _ _ _ _ s])
          with "1.IH"(1) got nl False Some show ?thesis by simp
        qed
      next
        case True
        let ?u = "take (strlen line - 1) line"
        let ?w1 = "log (ParseName ?u) w"
        have w1: "verifications (trace ?w1) = verifications (trace w)"
                 "structs ?w1 = structs w" "material ?w1 = material w"
          by (simp_all add: log_def verifications_append)
        obtain k5 p where parse: "krb5_parse_name E ?u = (k5, p)"
          by (cases "krb5_parse_name E ?u")
        show ?thesis
        proof (cases "k5 = 0")
          case False
          with "1.prems" got nl True parse
          have "k5login_loop E cr opts service pass rest retval c ?w1 = Some (st, rv, c', w')"
            by (simp add: k5login_loop.simps [of _ _ _ _ _ s])
          with "1.IH"(2) got nl True parse False
          have "verifications (trace w') = verifications (trace ?w1) \<and> structs w' = structs ?w1
              \<and> (st = PAM_SUCCESS \<and> rv = 0 \<or> st = PAM_AUTH_ERR \<and> material w' = material ?w1)"
            by simp
          with w1 show ?thesis by simp
        next
          case k5: True
          obtain r w2 where ex: "krb5_get_init_creds_password E cr (Some p) pass service opts ?w1
                = (r, w2)"
            by (cases "krb5_get_init_creds_password E cr (Some p) pass service opts ?w1")
          note fr = exchange_frame [OF ex]
          show ?thesis
          proof (cases "r = 0")
            case True
            with "1.prems" got nl \<open>nl\<close> parse k5 ex have res: "w' = w2" "st = PAM_SUCCESS" "rv = 0"
              by (simp_all add: k5login_loop.simps [of _ _ _ _ _ s])
            with fr(1,2) w1 show ?thesis by simp
          next
            case False
            with "1.prems" got nl \<open>nl\<close> parse k5 ex
            have "k5login_loop E cr opts service pass rest r c w2 = Some (st, rv, c', w')"
              by (simp add: k5login_loop.simps [of _ _ _ _ _ s])
            with "1.IH"(3) got nl \<open>nl\<close> parse k5 ex False
            have "verifications (trace w') = verifications (trace w2) \<and> structs w' = structs w2
                \<and> (st = PAM_SUCCESS \<and> rv = 0 \<or> st = PAM_AUTH_ERR \<and> material w' = material w2)"
              by simp
            with fr(1,2) fr(3) [OF False] w1 show ?thesis by simp
          qed
        qed
      qed
    qed
  qed
qed

lemma k5login_password_auth_cases:
  "k5login_password_auth E c cr opts service pass w
     = (let (rv, w1) = krb5_get_init_creds_password E cr (princ c) pass service opts w
        in Some (if rv = 0 then PAM_SUCCESS else PAM_AUTH_ERR, rv, c, w1))
   \<or> (\<exists>e. k5login_password_auth E c cr opts service pass w
             = Some (PAM_AUTH_ERR, e, c, w\<lparr>errno := e\<rparr>))
   \<or> k5login_password_auth E c cr opts service pass w = Some (PAM_AUTH_ERR, errno w, c, w)
   \<or> (\<exists>s. k5login_password_auth E c cr opts service pass w
             = k5login_loop E cr opts service pass s KRB5KRB_AP_ERR_BAD_INTEGRITY c w)"
proof (cases "pamk5_compat_getpwnam E (name c)")
  case None
  then show ?thesis by (simp add: k5login_password_auth_def)
next
  case (Some pw)
  show ?thesis
  proof (cases "alloc_ok E Filename \<and> access_R_OK E (pw_dir pw @ ''/.k5login'')")
    case False
    with Some show ?thesis by (auto simp: k5login_password_auth_def)
  next
    case True
    show ?thesis
    proof (cases "fopen_r E (pw_dir pw @ ''/.k5login'')")
      case (Inl e)
      with Some True show ?thesis by (simp add: k5login_password_auth_def)
    next
      case (Inr f)
      show ?thesis
      proof (cases "st_uid f")
        case (Inl e)
        with Some True Inr show ?thesis by (simp add: k5login_password_auth_def)
      next
        case uid: (Inr uid)
        show ?thesis
        proof (cases "uid \<noteq> 0 \<and> uid \<noteq> pw_uid pw")
          case True
          with Some \<open>alloc_ok E Filename \<and> access_R_OK E (pw_dir pw @ ''/.k5login'')\<close> Inr uid
          show ?thesis by (simp add: k5login_password_auth_def)
        next
          case False
          with Some \<open>alloc_ok E Filename \<and> access_R_OK E (pw_dir pw @ ''/.k5login'')\<close> Inr uid
          have "k5login_password_auth E c cr opts service pass w
             = k5login_loop E cr opts service pass (bytes f) KRB5KRB_AP_ERR_BAD_INTEGRITY c w"
            by (auto simp: k5login_password_auth_def)
          then show ?thesis by blast
        qed
      qed
    qed
  qed
qed

lemma k5login_password_auth_frame:
  assumes "k5login_password_auth E c cr opts service pass w = Some (st, rv, c', w')"
  shows "verifications (trace w') = verifications (trace w) \<and> structs w' = structs w
   \<and> (st = PAM_SUCCESS \<and> rv = 0 \<or> st = PAM_AUTH_ERR \<and> material w' = material w)"
proof -
  obtain r w1 where ex: "krb5_get_init_creds_password E cr (princ c) pass service opts w = (r, w1)"
    by (cases "krb5_get_init_creds_password E cr (princ c) pass service opts w")
  note fr = exchange_frame [OF ex]
  consider
    (direct) "k5login_password_auth E c cr opts service pass w
       = Some (if r = 0 then PAM_SUCCESS else PAM_AUTH_ERR, r, c, w1)"
  | (io) e where "k5login_password_auth E c cr opts service pass w
       = Some (PAM_AUTH_ERR, e, c, w\<lparr>errno := e\<rparr>)"
  | (owner) "k5login_password_auth E c cr opts service pass w = Some (PAM_AUTH_ERR, errno w, c, w)"
  | (loop) s where "k5login_password_auth E c cr opts service pass w
       = k5login_loop E cr opts service pass s KRB5KRB_AP_ERR_BAD_INTEGRITY c w"
    using k5login_password_auth_cases [of E c cr opts service pass w] ex by auto
  then show ?thesis
  proof cases
    case direct
    with assms have "w' = w1" "rv = r" "st = (if r = 0 then PAM_SUCCESS else PAM_AUTH_ERR)"
      by auto
    with fr show ?thesis by (cases "r = 0") simp_all
  next
    case io
    with assms show ?thesis by auto
  next
    case owner
    with assms show ?thesis by auto
  next
    case loop
    with assms show ?thesis by (simp add: k5login_loop_frame)
  qed
qed

lemma get_tgt_frame:
  assumes "get_tgt E args c cr opts service pass w = Some (st, rv, c', w')"
  shows "verifications (trace w') = verifications (trace w) \<and> structs w' = structs w
   \<and> (st = PAM_SUCCESS \<and> rv = 0 \<or> st = PAM_AUTH_ERR \<and> material w' = material w)"
proof (cases "search_k5login args")
  case True
  with assms show ?thesis by (simp add: get_tgt_def k5login_password_auth_frame)
next
  case False
  obtain r w1 where ex: "krb5_get_init_creds_password E cr (princ c) pass service opts w = (r, w1)"
    by (cases "krb5_get_init_creds_password E cr (princ c) pass service opts w")
  note fr = exchange_frame [OF ex]
  from assms False ex fr show ?thesis
    by (auto simp: get_tgt_def split: if_splits)
qed

lemma prompt_password_frame:
  "prompt_password E service w = Got pass1 w1 \<Longrightarrow>
     verifications (trace w1) = verifications (trace w) \<and> structs w1 = structs w
     \<and> material w1 = material w"
  "prompt_password E service w = Failed w1 \<Longrightarrow>
     verifications (trace w1) = verifications (trace w) \<and> structs w1 = structs w
     \<and> material w1 = material w"
  by (auto simp: prompt_password_def pamk5_get_password_def log_def verifications_append Let_def
           split: list.splits if_splits prod.splits)

text \<open>One pass of the loop that starts without a password.\<close>

lemma password_loop_prompt_frame:
  assumes "password_loop E args c cr opts service None retry w = Some (rv, cv, c', w')"
  shows "verifications (trace w') = verifications (trace w) \<and> structs w' = structs w
     \<and> cv = (rv = 0) \<and> (rv \<noteq> 0 \<longrightarrow> material w' = material w)"
proof (cases "prompt_password E service w")
  case (Failed w1)
  with assms have "w' = w1" "rv = PAM_SERVICE_ERR" "\<not> cv"
    by (simp_all add: password_loop.simps [of _ _ _ _ _ _ None])
  with prompt_password_frame(2) [OF Failed] show ?thesis by (simp add: pam_codes)
next
  case (Got pass1 w1)
  with assms obtain st c1 where
    tgt: "get_tgt E args c cr opts service pass1 w1 = Some (st, rv, c1, w')" and cv: "cv = (rv = 0)"
    by (auto simp: password_loop.simps [of _ _ _ _ _ _ None] split: option.splits if_splits)
  from get_tgt_frame [OF tgt] prompt_password_frame(1) [OF Got] cv show ?thesis by auto
next
  case Dangling
  with assms show ?thesis by (simp add: password_loop.simps [of _ _ _ _ _ _ None])
qed

lemma password_loop_frame:
  assumes "password_loop E args c cr opts service pass retry w = Some (rv, cv, c', w')"
  shows "verifications (trace w') = verifications (trace w) \<and> structs w' = structs w
     \<and> cv = (rv = 0) \<and> (rv \<noteq> 0 \<longrightarrow> material w' = material w)"
proof (cases pass)
  case None
  with assms show ?thesis by (simp add: password_loop_prompt_frame)
next
  case (Some pw)
  from assms Some obtain st r c1 w1 where
    tgt: "get_tgt E args c cr opts service (Some pw) w = Some (st, r, c1, w1)"
    by (auto simp: password_loop.simps [of _ _ _ _ _ _ "Some pw"] split: option.splits)
  note f1 = get_tgt_frame [OF tgt]
  show ?thesis
  proof (cases "st \<noteq> PAM_SUCCESS \<and> retry \<and> r = KRB5KRB_AP_ERR_BAD_INTEGRITY")
    case False
    with assms Some tgt have "w' = w1" "rv = r" "cv = (rv = 0)"
      by (auto simp: password_loop.simps [of _ _ _ _ _ _ "Some pw"] split: if_splits)
    with f1 show ?thesis by (auto simp: pam_codes)
  next
    case True
    with assms Some tgt have
      again: "password_loop E args c1 cr opts service None retry w1 = Some (rv, cv, c', w')"
      by (simp add: password_loop.simps [of _ _ _ _ _ _ "Some pw"])
    from True f1 have "material w1 = material w" by (simp add: pam_codes)
    with password_loop_prompt_frame [OF again] f1 show ?thesis by simp
  qed
qed

text \<open>No stage of the password path touches the material of another structure.\<close>

lemma k5login_loop_outside:
  "k5login_loop E cr opts service pass s retval c w = Some (st, rv, c', w') \<Longrightarrow> a \<noteq> cr \<Longrightarrow>
   material w' a = material w a"
proof (induction E cr opts service pass s retval c w rule: k5login_loop.induct)
  case (1 E cr opts service pass s retval c w)
  show ?case
  proof (cases "fgets BUFSIZ s")
    case None
    with "1.prems" show ?thesis by (simp add: k5login_loop.simps [of _ _ _ _ _ s])
  next
    case (Some lr)
    obtain line rest where got: "fgets BUFSIZ s = Some (line, rest)"
      using Some by (cases lr) simp
    show ?thesis
    proof (cases "last_is_newline line")
      case None
      with "1.prems" got show ?thesis by (simp add: k5login_loop.simps [of _ _ _ _ _ s])
    next
      case nl: (Some nl)
      show ?thesis
      proof (cases nl)
        case False
        show ?thesis
        proof (cases "skip_to_newline rest")
          case None
          with "1.prems" got nl False show ?thesis
            by (simp add: k5login_loop.simps [of _ _ _ _ _ s])
        next
          case (Some rest')
          with "1.prems" got nl False
          have "k5login_loop E cr opts service pass rest' retval c w = Some (st, rv, c', w')"
            by (simp add: k5login_loop.simps [of _ _ _ _ _ s])
          with "1.IH"(1) got nl False Some "1.prems"(2) show ?thesis by simp
        qed
      next
        case True
        let ?u = "take (strlen line - 1) line"
        let ?w1 = "log (ParseName ?u) w"
        have w1: "material ?w1 = material w" by (simp add: log_def)
        obtain k5 p where parse: "krb5_parse_name E ?u = (k5, p)"
          by (cases "krb5_parse_name E ?u")
        show ?thesis
        proof (cases "k5 = 0")
          case False
          with "1.prems" got nl True parse
          have "k5login_loop E cr opts service pass rest retval c ?w1 = Some (st, rv, c', w')"
            by (simp add: k5login_loop.simps [of _ _ _ _ _ s])
          with "1.IH"(2) got nl True parse False "1.prems"(2)
          have "material w' a = material ?w1 a" by simp
          with w1 show ?thesis by simp
        next
          case k5: True
          obtain r w2 where ex: "krb5_get_init_creds_password E cr (Some p) pass service opts ?w1
                = (r, w2)"
            by (cases "krb5_get_init_creds_password E cr (Some p) pass service opts ?w1")
          from exchange_frame(5) [OF ex "1.prems"(2)] w1
          have w2: "material w2 a = material w a" by simp
          show ?thesis
          proof (cases "r = 0")
            case True
            with "1.prems" got nl \<open>nl\<close> parse k5 ex have "w' = w2"
              by (simp add: k5login_loop.simps [of _ _ _ _ _ s])
            with w2 show ?thesis by simp
          next
            case False
            with "1.prems" got nl \<open>nl\<close> parse k5 ex
            have "k5login_loop E cr opts service pass rest r c w2 = Some (st, rv, c', w')"
              by (simp add: k5login_loop.simps [of _ _ _ _ _ s])
            with "1.IH"(3) got nl \<open>nl\<close> parse k5 ex False "1.prems"(2)
            have "material w' a = material w2 a" by simp
            with w2 show ?thesis by simp
          qed
        qed
      qed
    qed
  qed
qed

lemma get_tgt_outside:
  assumes "get_tgt E args c cr opts service pass w = Some (st, rv, c', w')" and "a \<noteq> cr"
  shows "material w' a = material w a"
proof -
  obtain r w1 where ex: "krb5_get_init_creds_password E cr (princ c) pass service opts w = (r, w1)"
    by (cases "krb5_get_init_creds_password E cr (princ c) pass service opts w")
  note fr = exchange_frame(5) [OF ex assms(2)]
  show ?thesis
  proof (cases "search_k5login args")
    case False
    with assms(1) ex fr show ?thesis by (auto simp: get_tgt_def)
  next
    case True
    with assms(1) have k: "k5login_password_auth E c cr opts service pass w = Some (st, rv, c', w')"
      by (simp add: get_tgt_def)
    consider
      (direct) "k5login_password_auth E c cr opts service pass w
         = Some (if r = 0 then PAM_SUCCESS else PAM_AUTH_ERR, r, c, w1)"
    | (io) e where "k5login_password_auth E c cr opts service pass w
         = Some (PAM_AUTH_ERR, e, c, w\<lparr>errno := e\<rparr>)"
    | (owner) "k5login_password_auth E c cr opts service pass w
         = Some (PAM_AUTH_ERR, errno w, c, w)"
    | (loop) s where "k5login_password_auth E c cr opts service pass w
         = k5login_loop E cr opts service pass s KRB5KRB_AP_ERR_BAD_INTEGRITY c w"
      using k5login_password_auth_cases [of E c cr opts service pass w] ex by auto
    then show ?thesis
    proof cases
      case direct
      with k have "w' = w1" by auto
      with fr show ?thesis by simp
    next
      case io
      with k show ?thesis by auto
    next
      case owner
      with k show ?thesis by auto
    next
      case loop
      with k assms(2) show ?thesis by (simp add: k5login_loop_outside)
    qed
  qed
qed

lemma password_loop_prompt_outside:
  assumes "password_loop E args c cr opts service None retry w = Some (rv, cv, c', w')"
      and "a \<noteq> cr"
  shows "material w' a = material w a"
proof (cases "prompt_password E service w")
  case (Failed w1)
  with assms(1) have "w' = w1" by (simp add: password_loop.simps [of _ _ _ _ _ _ None])
  with prompt_password_frame(2) [OF Failed] show ?thesis by simp
next
  case (Got pass1 w1)
  with assms(1) obtain st c1 where
    tgt: "get_tgt E args c cr opts service pass1 w1 = Some (st, rv, c1, w')"
    by (auto simp: password_loop.simps [of _ _ _ _ _ _ None] split: option.splits if_splits)
  from get_tgt_outside [OF tgt assms(2)] prompt_password_frame(1) [OF Got] show ?thesis by simp
next
  case Dangling
  with assms(1) show ?thesis by (simp add: password_loop.simps [of _ _ _ _ _ _ None])
qed

lemma password_loop_outside:
  assumes "password_loop E args c cr opts service pass retry w = Some (rv, cv, c', w')"
      and "a \<noteq> cr"
  shows "material w' a = material w a"
proof (cases pass)
  case None
  with assms show ?thesis by (simp add: password_loop_prompt_outside)
next
  case (Some pw)
  from assms(1) Some obtain st r c1 w1 where
    tgt: "get_tgt E args c cr opts service (Some pw) w = Some (st, r, c1, w1)"
    by (auto simp: password_loop.simps [of _ _ _ _ _ _ "Some pw"] split: option.splits)
  note f1 = get_tgt_outside [OF tgt assms(2)]
  show ?thesis
  proof (cases "st \<noteq> PAM_SUCCESS \<and> retry \<and> r = KRB5KRB_AP_ERR_BAD_INTEGRITY")
    case False
    with assms(1) Some tgt have "w' = w1"
      by (auto simp: password_loop.simps [of _ _ _ _ _ _ "Some pw"] split: if_splits)
    with f1 show ?thesis by simp
  next
    case True
    with assms(1) Some tgt have
      again: "password_loop E args c1 cr opts service None retry w1 = Some (rv, cv, c', w')"
      by (simp add: password_loop.simps [of _ _ _ _ _ _ "Some pw"])
    from password_loop_prompt_outside [OF again assms(2)] f1 show ?thesis by simp
  qed
qed

lemma parse_name_frame:
  assumes "parse_name E args c w = Some (rv, c', w')"
  shows "verifications (trace w') = verifications (trace w) \<and> structs w' = structs w
     \<and> material w' = material w \<and> next_addr w' = next_addr w"
proof -
  from assms obtain user where user: "working_name E args c = Some user"
    by (cases "working_name E args c") (simp_all add: parse_name_def)
  obtain k5 p where "krb5_parse_name E user = (k5, p)"
    by (cases "krb5_parse_name E user")
  moreover obtain k5' p' where
    "krb5_parse_name E (user @ ''@'' @ the (realm args)) = (k5', p')"
    by (cases "krb5_parse_name E (user @ ''@'' @ the (realm args))")
  moreover obtain rc kuser where "krb5_aname_to_localname E p = (rc, kuser)"
    by (cases "krb5_aname_to_localname E p")
  moreover obtain rc' kuser' where "krb5_aname_to_localname E p' = (rc', kuser')"
    by (cases "krb5_aname_to_localname E p'")
  ultimately show ?thesis
    using assms user
    by (auto simp: parse_name_def Let_def log_def verifications_append
             split: option.splits if_splits)
qed

lemma calloc_creds_frame:
  assumes "calloc_creds ok w = (cr, w')"
  shows "verifications (trace w') = verifications (trace w)"
    and "cr = None \<Longrightarrow> w' = w"
    and "cr = Some a \<Longrightarrow> a = next_addr w \<and> structs w' = insert a (structs w)
           \<and> material w' = material w"
  using assms
  by (auto simp: calloc_creds_def log_def verifications_append split: if_splits)

lemma pkinit_auth_verifications:
  assumes "pkinit_auth B E args c service w = (rv, creds, w')"
  shows "verifications (trace w') = verifications (trace w)"
proof -
  let ?w0 = "if pkinit_prompt args
                then log (Conv (if use_pkinit args
                                then ''Insert smart card and press Enter:''
                                else ''Insert smart card if desired, then press Enter:'')) w
                else w"
  have v0: "verifications (trace ?w0) = verifications (trace w)"
    by (simp add: log_def verifications_append)
  obtain cr w1 where al: "calloc_creds (alloc_ok E PkinitCreds) ?w0 = (cr, w1)"
    by (cases "calloc_creds (alloc_ok E PkinitCreds) ?w0")
  note v1 = calloc_creds_frame(1) [OF al]
  show ?thesis
  proof (cases cr)
    case None
    with assms al have "w' = w1" by (simp add: pkinit_auth_def Let_def)
    with v0 v1 show ?thesis by simp
  next
    case (Some a)
    let ?opts = "(set_credential_options B E args opt_init (service \<noteq> None))
                   \<lparr>opt_pkinit := Some (pkinit_user args, pkinit_anchors args)\<rparr>"
    obtain r w2 where ex: "krb5_get_init_creds_password E a (princ c) None service ?opts w1 = (r, w2)"
      by (cases "krb5_get_init_creds_password E a (princ c) None service ?opts w1")
    note fr = exchange_frame(1) [OF ex]
    from assms al Some ex have "trace w' = trace w1 \<or> trace w' = trace w2"
      by (auto simp: pkinit_auth_def Let_def free_creds_def krb5_free_cred_contents_def
               split: if_splits)
    with fr v0 v1 show ?thesis by auto
  qed
qed

lemma pkinit_stage_verifications:
  assumes "pkinit_stage B E args c service creds0 w = (jump, rv, creds, w')"
  shows "verifications (trace w') = verifications (trace w)"
proof -
  obtain r cr w1 where pk: "pkinit_auth B E args c service w = (r, cr, w1)"
    by (cases "pkinit_auth B E args c service w") auto
  from assms pk have "w' = w \<or> w' = w1"
    by (auto simp: pkinit_stage_def split: if_splits)
  with pkinit_auth_verifications [OF pk] show ?thesis by auto
qed

text \<open>
  Claim C10. When \<open>args->ctx\<close> is \<open>NULL\<close> the call returns \<open>PAM_SERVICE_ERR\<close> at once:
  \<open>*creds\<close> is untouched and the world is unchanged, so nothing was resolved, exchanged
  or allocated.
\<close>

theorem null_context_service_error:
  "ctx args = None \<Longrightarrow>
   pamk5_password_auth B E args service creds0 cv0 w = Some (PAM_SERVICE_ERR, creds0, None, w)"
  by (simp add: pamk5_password_auth_def password_auth_body_def)

theorem null_context_service_error_witness:
  "ctx (ex_args\<lparr>ctx := None\<rparr>) = None \<and>
   pamk5_password_auth ex_build ex_env (ex_args\<lparr>ctx := None\<rparr>) None None False ex_world
     = Some (PAM_SERVICE_ERR, None, None, ex_world)"
  using null_context_service_error [of "ex_args\<lparr>ctx := None\<rparr>" ex_build ex_env None None False ex_world]
  by simp

lemma done_label_failure:
  assumes "rv = (if retval = 0 \<and> service = None then fst (verify_creds E args creds w) else retval)"
      and "rv \<noteq> 0"
  shows "\<exists>w'. done_label E args service retval creds cv w = (pam_error rv, None, w')"
proof (cases "retval = 0 \<and> service = None")
  case True
  obtain v w1 where v: "verify_creds E args creds w = (v, w1)" by (cases "verify_creds E args creds w")
  with True assms show ?thesis by (simp add: done_label_def)
next
  case False
  with assms show ?thesis by (auto simp add: done_label_def)
qed

text \<open>
  Claim C6. Whenever the call reaches the label \<open>done\<close> and the code \<open>rv\<close> left after
  the verification step is not 0, the caller gets: \<open>PAM_USER_UNKNOWN\<close> for an unknown
  principal, \<open>PAM_NEW_AUTHTOK_REQD\<close> for an expired key, \<open>PAM_ACCT_EXPIRED\<close> for an
  expired account, \<open>PAM_AUTHINFO_UNAVAIL\<close> for an unreachable authority or an
  unresolvable realm, and \<open>PAM_AUTH_ERR\<close> for every other code. The five codes
  differ from each other and from 0, so the order of the tests does not matter.
\<close>

theorem terminal_failure_status:
  assumes "password_auth_body B E args service creds0 cv0 w = Some (Done retval creds cv c w1)"
      and "rv = (if retval = 0 \<and> service = None then fst (verify_creds E args creds w1) else retval)"
      and "rv \<noteq> 0"
  shows "(\<exists>w'. pamk5_password_auth B E args service creds0 cv0 w =
           Some (if rv = KRB5KDC_ERR_C_PRINCIPAL_UNKNOWN then PAM_USER_UNKNOWN
                 else if rv = KRB5KDC_ERR_KEY_EXP then PAM_NEW_AUTHTOK_REQD
                 else if rv = KRB5KDC_ERR_NAME_EXP then PAM_ACCT_EXPIRED
                 else if rv = KRB5_KDC_UNREACH \<or> rv = KRB5_REALM_CANT_RESOLVE
                      then PAM_AUTHINFO_UNAVAIL
                 else PAM_AUTH_ERR, None, Some c, w'))
         \<and> distinct [0, KRB5KDC_ERR_C_PRINCIPAL_UNKNOWN, KRB5KDC_ERR_KEY_EXP,
                      KRB5KDC_ERR_NAME_EXP, KRB5_KDC_UNREACH, KRB5_REALM_CANT_RESOLVE]"
proof -
  from done_label_failure [OF assms(2,3)]
  obtain w' where "done_label E args service retval creds cv w1 = (pam_error rv, None, w')"
    by blast
  with assms(1) have "pamk5_password_auth B E args service creds0 cv0 w =
      Some (pam_error rv, None, Some c, w')"
    by (simp add: pamk5_password_auth_def)
  then have "\<exists>w'. pamk5_password_auth B E args service creds0 cv0 w =
           Some (if rv = KRB5KDC_ERR_C_PRINCIPAL_UNKNOWN then PAM_USER_UNKNOWN
                 else if rv = KRB5KDC_ERR_KEY_EXP then PAM_NEW_AUTHTOK_REQD
                 else if rv = KRB5KDC_ERR_NAME_EXP then PAM_ACCT_EXPIRED
                 else if rv = KRB5_KDC_UNREACH \<or> rv = KRB5_REALM_CANT_RESOLVE
                      then PAM_AUTHINFO_UNAVAIL
                 else PAM_AUTH_ERR, None, Some c, w')"
    by (simp add: pam_error_def)
  moreover have "distinct [0, KRB5KDC_ERR_C_PRINCIPAL_UNKNOWN, KRB5KDC_ERR_KEY_EXP,
                      KRB5KDC_ERR_NAME_EXP, KRB5_KDC_UNREACH, KRB5_REALM_CANT_RESOLVE]"
    by (simp add: krb5_codes)
  ultimately show ?thesis by (rule conjI)
qed

text \<open>An account the authority does not know: the caller is told \<open>PAM_USER_UNKNOWN\<close>.\<close>

theorem terminal_failure_status_witness:
  "password_auth_body ex_build ex_env (ex_args\<lparr>ctx := Some \<lparr>name = ''eve'', princ = None\<rparr>\<rparr>)
      None None False (ex_world\<lparr>replies := [(0, ''guess'')]\<rparr>)
     = Some (Done KRB5KDC_ERR_C_PRINCIPAL_UNKNOWN (Some 0) False
         \<lparr>name = ''eve'', princ = Some \<lparr>princ_name = [''eve''], princ_realm = ''EXAMPLE.ORG''\<rparr>\<rparr>
         \<lparr>trace = [ParseName ''eve'', Calloc 0, GetPassword None,
                    Exchange (Some \<lparr>princ_name = [''eve''], princ_realm = ''EXAMPLE.ORG''\<rparr>)
                      (Some ''guess'') None KRB5KDC_ERR_C_PRINCIPAL_UNKNOWN],
           errno = 0, items = (\<lambda>i. None)(PAM_AUTHTOK := Some ''guess''), replies = [],
           structs = {0}, material = (\<lambda>a. None), next_addr = 1\<rparr>)
   \<and> (\<exists>w'. pamk5_password_auth ex_build ex_env
               (ex_args\<lparr>ctx := Some \<lparr>name = ''eve'', princ = None\<rparr>\<rparr>)
               None None False (ex_world\<lparr>replies := [(0, ''guess'')]\<rparr>)
             = Some (PAM_USER_UNKNOWN, None,
                 Some \<lparr>name = ''eve'',
                       princ = Some \<lparr>princ_name = [''eve''], princ_realm = ''EXAMPLE.ORG''\<rparr>\<rparr>, w'))"
proof -
  let ?args = "ex_args\<lparr>ctx := Some \<lparr>name = ''eve'', princ = None\<rparr>\<rparr>"
  let ?eve = "\<lparr>princ_name = [''eve''], princ_realm = ''EXAMPLE.ORG''\<rparr>"
  let ?w1 = "\<lparr>trace = [ParseName ''eve'', Calloc 0, GetPassword None,
                    Exchange (Some ?eve) (Some ''guess'') None KRB5KDC_ERR_C_PRINCIPAL_UNKNOWN],
           errno = 0, items = (\<lambda>i. None)(PAM_AUTHTOK := Some ''guess''), replies = [],
           structs = {0}, material = (\<lambda>a. None), next_addr = 1\<rparr>"
  have body: "password_auth_body ex_build ex_env ?args None None False
                (ex_world\<lparr>replies := [(0, ''guess'')]\<rparr>)
              = Some (Done KRB5KDC_ERR_C_PRINCIPAL_UNKNOWN (Some 0) False
                   \<lparr>name = ''eve'', princ = Some ?eve\<rparr> ?w1)"
    by (simp add: ex_defs auth_eval pam_codes krb5_codes)
  have nz: "KRB5KDC_ERR_C_PRINCIPAL_UNKNOWN \<noteq> 0" by (simp add: krb5_codes)
  from terminal_failure_status [OF body, of KRB5KDC_ERR_C_PRINCIPAL_UNKNOWN, THEN conjunct1] nz
  have "\<exists>w'. pamk5_password_auth ex_build ex_env ?args None None False
                (ex_world\<lparr>replies := [(0, ''guess'')]\<rparr>)
              = Some (PAM_USER_UNKNOWN, None, Some \<lparr>name = ''eve'', princ = Some ?eve\<rparr>, w')"
    by simp
  with body show ?thesis by simp
qed

lemmas done_eval = pamk5_password_auth_def done_label_def pam_error_def free_creds_def
  krb5_free_cred_contents_def verify_creds_def

text \<open>
  Claim C5 at a failing input. Trust-file search is on and the \<open>.k5login\<close> of \<open>bob\<close>
  (uid 1000) belongs to uid 1001. The trust-file authenticator refuses the file and
  reports the current \<open>errno\<close>, which is 0 here since nothing has failed. The
  orchestrator reads the 0 behind \<open>retval\<close> as an acquisition that succeeded: it runs
  the verification although no exchange was attempted, on a structure without ticket
  material, and returns \<open>PAM_SUCCESS\<close> when that verification passes.
\<close>

theorem stale_errno_verification:
  "pamk5_password_auth ex_build ex_foreign_env
      (ex_args\<lparr>search_k5login := True\<rparr>) None None False
      (ex_world\<lparr>replies := [(0, ''whatever'')]\<rparr>)
   = Some (PAM_SUCCESS, Some 0, Some (ex_ctx\<lparr>princ := Some bob\<rparr>),
       \<lparr>trace = [ParseName ''bob'', Calloc 0, GetPassword None, Verify 0],
         errno = 0, items = (\<lambda>i. None)(PAM_AUTHTOK := Some ''whatever''), replies = [],
         structs = {0}, material = (\<lambda>a. None), next_addr = 1\<rparr>)"
  by (simp add: done_eval auth_eval k5login_password_auth_def ex_foreign_env_def ex_defs
        pam_codes krb5_codes)

text \<open>
  Claim C1 at a failing input. The PKINIT block is compiled and \<open>try_pkinit\<close> is set; the
  PKINIT exchange succeeds and the verification fails. The jump to \<open>done\<close> skips the
  only assignments to \<open>creds_valid\<close>: when the indeterminate value read there is false
  the structure is freed and \<open>*creds\<close> is \<open>NULL\<close>, but the ticket material is not
  released; when it is true the material is released as well.
\<close>

theorem pkinit_verify_failure_material:
  "pamk5_password_auth (ex_build\<lparr>have_pkinit := True\<rparr>) ex_pkinit_env
      (ex_args\<lparr>try_pkinit := True\<rparr>) None None False ex_world
   = Some (PAM_AUTH_ERR, None, Some (ex_ctx\<lparr>princ := Some bob\<rparr>),
       \<lparr>trace = [ParseName ''bob'', Calloc 0, Exchange (Some bob) None None 0,
                  Verify KRB5KRB_AP_ERR_BAD_INTEGRITY],
         errno = 0, items = (\<lambda>i. None), replies = [],
         structs = {}, material = (\<lambda>a. None)(0 := Some (Ticket (Some bob) None)),
         next_addr = 1\<rparr>)
   \<and> pamk5_password_auth (ex_build\<lparr>have_pkinit := True\<rparr>) ex_pkinit_env
      (ex_args\<lparr>try_pkinit := True\<rparr>) None None True ex_world
   = Some (PAM_AUTH_ERR, None, Some (ex_ctx\<lparr>princ := Some bob\<rparr>),
       \<lparr>trace = [ParseName ''bob'', Calloc 0, Exchange (Some bob) None None 0,
                  Verify KRB5KRB_AP_ERR_BAD_INTEGRITY],
         errno = 0, items = (\<lambda>i. None), replies = [],
         structs = {}, material = (\<lambda>a. None), next_addr = 1\<rparr>)"
  by (simp add: done_eval auth_eval pkinit_auth_def ex_pkinit_env_def ex_defs pam_codes krb5_codes)

subsection \<open>Release of credentials and verification\<close>

text \<open>The ways through the code before the label \<open>done\<close>.\<close>

lemma password_auth_body_cases:
  obtains
    (null) "ctx args = None"
      "password_auth_body B E args service creds0 cv0 w
         = Some (Return PAM_SERVICE_ERR creds0 None w)"
  | (resolve) c0 rv0 c w1 where "ctx args = Some c0"
      "parse_name E args c0 w = Some (rv0, c, w1)" "rv0 \<noteq> 0"
      "password_auth_body B E args service creds0 cv0 w
         = Some (Return PAM_SERVICE_ERR creds0 (Some c) w1)"
  | (pkinit) c0 c w1 rv1 creds1 w2 where "ctx args = Some c0"
      "parse_name E args c0 w = Some (0, c, w1)"
      "pkinit_stage B E args c service creds0 w1 = (True, rv1, creds1, w2)"
      "password_auth_body B E args service creds0 cv0 w = Some (Done rv1 creds1 cv0 c w2)"
  | (nomem) c0 c w1 rv1 creds1 w2 where "ctx args = Some c0"
      "parse_name E args c0 w = Some (0, c, w1)"
      "pkinit_stage B E args c service creds0 w1 = (False, rv1, creds1, w2)"
      "calloc_creds (alloc_ok E Creds) w2 = (None, w2)"
      "password_auth_body B E args service creds0 cv0 w
         = Some (Return PAM_SERVICE_ERR None (Some c) w2)"
  | (early) c0 c w1 rv1 creds1 w2 cr w3 rv where "ctx args = Some c0"
      "parse_name E args c0 w = Some (0, c, w1)"
      "pkinit_stage B E args c service creds0 w1 = (False, rv1, creds1, w2)"
      "calloc_creds (alloc_ok E Creds) w2 = (Some cr, w3)" "rv \<noteq> 0"
      "password_auth_body B E args service creds0 cv0 w = Some (Done rv (Some cr) False c w3)"
  | (fault) "password_auth_body B E args service creds0 cv0 w = None"
  | (loop) c0 c w1 rv1 creds1 w2 cr w3 opts pass rv2 cv c2 w4 where "ctx args = Some c0"
      "parse_name E args c0 w = Some (0, c, w1)"
      "pkinit_stage B E args c service creds0 w1 = (False, rv1, creds1, w2)"
      "calloc_creds (alloc_ok E Creds) w2 = (Some cr, w3)"
      "password_loop E args c cr opts service pass (try_first_pass args) w3
         = Some (rv2, cv, c2, w4)"
      "password_auth_body B E args service creds0 cv0 w = Some (Done rv2 (Some cr) cv c2 w4)"
proof (cases "ctx args")
  case None
  then have "password_auth_body B E args service creds0 cv0 w
         = Some (Return PAM_SERVICE_ERR creds0 None w)"
    by (simp add: password_auth_body_def)
  with None show ?thesis by (rule null)
next
  case (Some c0)
  show ?thesis
  proof (cases "parse_name E args c0 w")
    case None
    with Some have "password_auth_body B E args service creds0 cv0 w = None"
      by (simp add: password_auth_body_def)
    then show ?thesis by (rule fault)
  next
    case res0: (Some res0)
    obtain rv0 c w1 where pn: "parse_name E args c0 w = Some (rv0, c, w1)"
      using res0 by (cases res0) auto
    show ?thesis
  proof (cases "rv0 = 0")
    case False
    with Some pn have "password_auth_body B E args service creds0 cv0 w
         = Some (Return PAM_SERVICE_ERR creds0 (Some c) w1)"
      by (simp add: password_auth_body_def)
    with Some pn False show ?thesis by (rule resolve)
  next
    case True
    with pn have pn0: "parse_name E args c0 w = Some (0, c, w1)" by simp
    obtain jump rv1 creds1 w2 where
      pk: "pkinit_stage B E args c service creds0 w1 = (jump, rv1, creds1, w2)"
      by (cases "pkinit_stage B E args c service creds0 w1")
    show ?thesis
    proof (cases jump)
      case True
      with Some pn0 pk have "password_auth_body B E args service creds0 cv0 w
          = Some (Done rv1 creds1 cv0 c w2)"
        by (simp add: password_auth_body_def)
      with Some pn0 pk True show ?thesis by (auto intro: pkinit)
    next
      case False
      with pk have pkF: "pkinit_stage B E args c service creds0 w1 = (False, rv1, creds1, w2)"
        by simp
      obtain creds w3 where al: "calloc_creds (alloc_ok E Creds) w2 = (creds, w3)"
        by (cases "calloc_creds (alloc_ok E Creds) w2")
      show ?thesis
      proof (cases creds)
        case None
        with al calloc_creds_frame(2) [OF al] have al': "calloc_creds (alloc_ok E Creds) w2 = (None, w2)"
          by simp
        with Some pn0 pkF have "password_auth_body B E args service creds0 cv0 w
            = Some (Return PAM_SERVICE_ERR None (Some c) w2)"
          by (simp add: password_auth_body_def)
        with Some pn0 pkF al' show ?thesis by (rule nomem)
      next
        case cr: (Some cr)
        with al have al': "calloc_creds (alloc_ok E Creds) w2 = (Some cr, w3)" by simp
        let ?opts = "set_credential_options B E args opt_init (service \<noteq> None)"
        obtain rv pass where sp: "stored_password E args service w3 = (rv, pass)"
          by (cases "stored_password E args service w3")
        show ?thesis
        proof (cases "pamk5_compat_opt_alloc E \<noteq> 0")
          case True
          with Some pn0 pkF al' have "password_auth_body B E args service creds0 cv0 w
              = Some (Done (pamk5_compat_opt_alloc E) (Some cr) False c w3)"
            by (simp add: password_auth_body_def)
          with Some pn0 pkF al' True show ?thesis by (rule early)
        next
          case optok: False
          show ?thesis
          proof (cases "use_authtok args \<and> (rv \<noteq> PAM_SUCCESS \<or> pass = None)")
            case True
            with Some pn0 pkF al' optok sp have "password_auth_body B E args service creds0 cv0 w
                = Some (Done PAM_SERVICE_ERR (Some cr) False c w3)"
              by (simp add: password_auth_body_def)
            moreover have "PAM_SERVICE_ERR \<noteq> 0" by (simp add: pam_codes)
            ultimately show ?thesis using Some pn0 pkF al' by (auto intro: early)
          next
            case False
            show ?thesis
            proof (cases "password_loop E args c cr ?opts service pass (try_first_pass args) w3")
              case None
              with Some pn0 pkF al' optok False sp
              have "password_auth_body B E args service creds0 cv0 w = None"
                by (auto simp: password_auth_body_def)
              then show ?thesis by (rule fault)
            next
              case res: (Some res)
              obtain rv2 cv c2 w4 where
                lp: "password_loop E args c cr ?opts service pass (try_first_pass args) w3
                       = Some (rv2, cv, c2, w4)"
                using res by (cases res) auto
              with Some pn0 pkF al' optok False sp
              have "password_auth_body B E args service creds0 cv0 w
                  = Some (Done rv2 (Some cr) cv c2 w4)"
                by (auto simp: password_auth_body_def)
              with Some pn0 pkF al' lp show ?thesis by (rule loop)
            qed
          qed
        qed
      qed
    qed
  qed
  qed
qed

lemma verify_creds_frame:
  assumes "verify_creds E args creds w = (rv, w')"
  shows "verifications (trace w') = Suc (verifications (trace w))"
    and "structs w' = structs w" and "material w' = material w"
  using assms
  by (auto simp: verify_creds_def Let_def log_def verifications_append split: prod.splits)

lemma pam_error_not_success: "pam_error rv \<noteq> PAM_SUCCESS"
  by (simp add: pam_error_def pam_codes)

lemma done_label_cases:
  obtains
    (unverified) "retval = 0" "service \<noteq> None"
      "done_label E args service retval creds cv w = (PAM_SUCCESS, creds, w)"
  | (verified) w1 where "retval = 0" "service = None"
      "verify_creds E args creds w = (0, w1)"
      "done_label E args service retval creds cv w = (PAM_SUCCESS, creds, w1)"
  | (failed) "retval \<noteq> 0"
      "done_label E args service retval creds cv w
         = (pam_error retval, None,
            case creds of
              None \<Rightarrow> w
            | Some cr \<Rightarrow> free_creds cr (if cv then krb5_free_cred_contents cr w else w))"
  | (refused) v w1 where "retval = 0" "service = None"
      "verify_creds E args creds w = (v, w1)" "v \<noteq> 0"
      "done_label E args service retval creds cv w
         = (pam_error v, None,
            case creds of
              None \<Rightarrow> w1
            | Some cr \<Rightarrow> free_creds cr (if cv then krb5_free_cred_contents cr w1 else w1))"
proof (cases "retval = 0")
  case False
  then have "done_label E args service retval creds cv w
         = (pam_error retval, None,
            case creds of
              None \<Rightarrow> w
            | Some cr \<Rightarrow> free_creds cr (if cv then krb5_free_cred_contents cr w else w))"
    by (simp add: done_label_def)
  with False show ?thesis by (rule failed)
next
  case True
  show ?thesis
  proof (cases "service = None")
    case False
    with True have "done_label E args service retval creds cv w = (PAM_SUCCESS, creds, w)"
      by (auto simp: done_label_def)
    with True False show ?thesis by (rule unverified)
  next
    case svc: True
    obtain v w1 where v: "verify_creds E args creds w = (v, w1)"
      by (cases "verify_creds E args creds w")
    show ?thesis
    proof (cases "v = 0")
      case True
      with \<open>retval = 0\<close> svc v
      have "done_label E args service retval creds cv w = (PAM_SUCCESS, creds, w1)"
        by (simp add: done_label_def)
      with \<open>retval = 0\<close> svc v True show ?thesis by (auto intro: verified)
    next
      case False
      with \<open>retval = 0\<close> svc v
      have "done_label E args service retval creds cv w
         = (pam_error v, None,
            case creds of
              None \<Rightarrow> w1
            | Some cr \<Rightarrow> free_creds cr (if cv then krb5_free_cred_contents cr w1 else w1))"
        by (simp add: done_label_def)
      with \<open>retval = 0\<close> svc v False show ?thesis by (rule refused)
    qed
  qed
qed

lemma release_frame:
  "trace (case creds of None \<Rightarrow> w
          | Some cr \<Rightarrow> free_creds cr (if cv then krb5_free_cred_contents cr w else w)) = trace w"
  "structs (case creds of None \<Rightarrow> w
          | Some cr \<Rightarrow> free_creds cr (if cv then krb5_free_cred_contents cr w else w))
     = (case creds of None \<Rightarrow> structs w | Some p \<Rightarrow> structs w - {p})"
  "material (case creds of None \<Rightarrow> w
          | Some cr \<Rightarrow> free_creds cr (if cv then krb5_free_cred_contents cr w else w))
     = (case creds of None \<Rightarrow> material w
        | Some p \<Rightarrow> if cv then (material w)(p := None) else material w)"
  by (cases creds; simp add: free_creds_def krb5_free_cred_contents_def)+

lemma done_label_frame:
  assumes "done_label E args service retval creds cv w = (st, cr, w')"
  shows "verifications (trace w')
           = verifications (trace w) + (if retval = 0 \<and> service = None then 1 else 0)"
    and "st \<noteq> PAM_SUCCESS \<Longrightarrow> cr = None"
    and "st \<noteq> PAM_SUCCESS \<Longrightarrow>
           structs w' = (case creds of None \<Rightarrow> structs w | Some p \<Rightarrow> structs w - {p})"
    and "st \<noteq> PAM_SUCCESS \<Longrightarrow>
           material w' = (case creds of
                            None \<Rightarrow> material w
                          | Some p \<Rightarrow> if cv then (material w)(p := None) else material w)"
proof -
  have "verifications (trace w')
           = verifications (trace w) + (if retval = 0 \<and> service = None then 1 else 0)
      \<and> (st \<noteq> PAM_SUCCESS \<longrightarrow> cr = None
           \<and> structs w' = (case creds of None \<Rightarrow> structs w | Some p \<Rightarrow> structs w - {p})
           \<and> material w' = (case creds of
                            None \<Rightarrow> material w
                          | Some p \<Rightarrow> if cv then (material w)(p := None) else material w))"
  proof (cases rule: done_label_cases [of retval service E args creds cv w])
    case unverified
    with assms show ?thesis by simp
  next
    case (verified w1)
    with assms verify_creds_frame [OF verified(3)] show ?thesis by simp
  next
    case failed
    with assms have "w' = (case creds of None \<Rightarrow> w
          | Some cr \<Rightarrow> free_creds cr (if cv then krb5_free_cred_contents cr w else w))"
        "cr = None"
      by simp_all
    with failed(1) show ?thesis by (simp only: release_frame) simp
  next
    case (refused v w1)
    with assms have "w' = (case creds of None \<Rightarrow> w1
          | Some cr \<Rightarrow> free_creds cr (if cv then krb5_free_cred_contents cr w1 else w1))"
        "cr = None"
      by simp_all
    with refused(1,2) verify_creds_frame [OF refused(3)] show ?thesis
      by (simp only: release_frame) simp
  qed
  then show "verifications (trace w')
           = verifications (trace w) + (if retval = 0 \<and> service = None then 1 else 0)"
    and "st \<noteq> PAM_SUCCESS \<Longrightarrow> cr = None"
    and "st \<noteq> PAM_SUCCESS \<Longrightarrow>
           structs w' = (case creds of None \<Rightarrow> structs w | Some p \<Rightarrow> structs w - {p})"
    and "st \<noteq> PAM_SUCCESS \<Longrightarrow>
           material w' = (case creds of
                            None \<Rightarrow> material w
                          | Some p \<Rightarrow> if cv then (material w)(p := None) else material w)"
    by simp_all
qed

lemma password_auth_done:
  assumes "password_auth_body B E args service creds0 cv0 w = Some (Done rv creds cv c w1)"
      and "pamk5_password_auth B E args service creds0 cv0 w = Some (st, cr, c', w')"
  shows "done_label E args service rv creds cv w1 = (st, cr, w')"
  using assms by (auto simp: pamk5_password_auth_def split: prod.splits)

lemma password_auth_return:
  assumes "password_auth_body B E args service creds0 cv0 w = Some (Return st0 creds c w1)"
      and "pamk5_password_auth B E args service creds0 cv0 w = Some (st, cr, c', w')"
  shows "st = st0 \<and> cr = creds \<and> w' = w1"
  using assms by (auto simp: pamk5_password_auth_def)

text \<open>
  Every call that returns a status other than \<open>PAM_SUCCESS\<close> leaves \<open>*creds\<close> \<open>NULL\<close>, or
  leaves it as it was on entry, and then the heap of credentials as well (the two
  returns before any allocation).
\<close>

theorem failure_returns_no_credential:
  assumes run: "pamk5_password_auth B E args service creds0 cv0 w = Some (st, cr, c', w')"
      and fail: "st \<noteq> PAM_SUCCESS"
  shows "cr = None \<or> (cr = creds0 \<and> structs w' = structs w \<and> material w' = material w)"
proof (cases rule: password_auth_body_cases [of args B E service creds0 cv0 w])
  case null
  from password_auth_return [OF null(2) run] show ?thesis by simp
next
  case (resolve c0 rv0 c w1)
  from password_auth_return [OF resolve(4) run] parse_name_frame [OF resolve(2)]
  show ?thesis by simp
next
  case (pkinit c0 c w1 rv1 creds1 w2)
  from done_label_frame(2) [OF password_auth_done [OF pkinit(4) run] fail] show ?thesis by simp
next
  case (nomem c0 c w1 rv1 creds1 w2)
  from password_auth_return [OF nomem(5) run] show ?thesis by simp
next
  case (early c0 c w1 rv1 creds1 w2 cr1 w3 rv)
  from done_label_frame(2) [OF password_auth_done [OF early(6) run] fail] show ?thesis by simp
next
  case fault
  with run show ?thesis by (simp add: pamk5_password_auth_def)
next
  case (loop c0 c w1 rv1 creds1 w2 cr1 w3 opts pass rv2 cv c2 w4)
  from done_label_frame(2) [OF password_auth_done [OF loop(6) run] fail] show ?thesis by simp
qed

lemma pkinit_stage_absent:
  "\<not> have_pkinit B \<Longrightarrow>
   pkinit_stage B E args c service creds0 w
     = (use_pkinit args, if use_pkinit args then KRB5_KDC_UNREACH else 0, creds0, w)"
  by (simp add: pkinit_stage_def)

text \<open>
  Without the PKINIT block, a call entered with \<open>*creds\<close> \<open>NULL\<close> that fails leaves
  \<open>*creds\<close> \<open>NULL\<close> and the heap of credentials as it found it: the structure it
  allocated is freed and the material it acquired is released.
\<close>

theorem password_path_releases_credential:
  assumes nopk: "\<not> have_pkinit B"
      and fresh: "next_addr w \<notin> structs w" "material w (next_addr w) = None"
      and run: "pamk5_password_auth B E args service None cv0 w = Some (st, cr, c', w')"
      and fail: "st \<noteq> PAM_SUCCESS"
  shows "cr = None \<and> structs w' = structs w \<and> material w' = material w"
proof (cases rule: password_auth_body_cases [of args B E service None cv0 w])
  case null
  from password_auth_return [OF null(2) run] show ?thesis by simp
next
  case (resolve c0 rv0 c w1)
  from password_auth_return [OF resolve(4) run] parse_name_frame [OF resolve(2)]
  show ?thesis by simp
next
  case (pkinit c0 c w1 rv1 creds1 w2)
  from pkinit(3) pkinit_stage_absent [OF nopk, of E args c service None w1]
  have same: "creds1 = None" "w2 = w1" by simp_all
  note d = done_label_frame(2-4) [OF password_auth_done [OF pkinit(4) run] fail]
  from d same parse_name_frame [OF pkinit(2)] show ?thesis by simp
next
  case (nomem c0 c w1 rv1 creds1 w2)
  from nomem(3) pkinit_stage_absent [OF nopk, of E args c service None w1]
  have same: "w2 = w1" by simp
  from password_auth_return [OF nomem(5) run] same parse_name_frame [OF nomem(2)]
  show ?thesis by simp
next
  case (early c0 c w1 rv1 creds1 w2 cr1 w3 rv)
  from early(3) pkinit_stage_absent [OF nopk, of E args c service None w1]
  have same: "w2 = w1" by simp
  note pf = parse_name_frame [OF early(2)]
  from calloc_creds_frame(3) [OF early(4) refl] same pf
  have al: "cr1 = next_addr w" "structs w3 = insert cr1 (structs w)" "material w3 = material w"
    by simp_all
  note d = done_label_frame(2-4) [OF password_auth_done [OF early(6) run] fail]
  from d al fresh show ?thesis by simp
next
  case fault
  with run show ?thesis by (simp add: pamk5_password_auth_def)
next
  case (loop c0 c w1 rv1 creds1 w2 cr1 w3 opts pass rv2 cv c2 w4)
  from loop(3) pkinit_stage_absent [OF nopk, of E args c service None w1]
  have same: "w2 = w1" by simp
  note pf = parse_name_frame [OF loop(2)]
  from calloc_creds_frame(3) [OF loop(4) refl] same pf
  have al: "cr1 = next_addr w" "structs w3 = insert cr1 (structs w)" "material w3 = material w"
    by simp_all
  note lf = password_loop_frame [OF loop(5)]
  note d = done_label_frame(2-4) [OF password_auth_done [OF loop(6) run] fail]
  have st: "structs w' = structs w" using d(2) lf al fresh by simp
  have "material w' = material w"
  proof (cases "rv2 = 0")
    case False
    with lf have "\<not> cv" "material w4 = material w3" by simp_all
    with d(3) al show ?thesis by simp
  next
    case True
    with lf have cv: cv by simp
    have "(material w4)(cr1 := None) = material w"
    proof
      fix a
      show "((material w4)(cr1 := None)) a = material w a"
      proof (cases "a = cr1")
        case True
        with al(1) fresh(2) show ?thesis by simp
      next
        case False
        from password_loop_outside [OF loop(5) False] al(3) False show ?thesis by simp
      qed
    qed
    with d(3) cv show ?thesis by simp
  qed
  with d(1) st show ?thesis by simp
qed

text \<open>
  The call runs the verification once when it reaches the label \<open>done\<close> with \<open>retval\<close> 0
  and no service specifier, and not at all otherwise: never for a service-specific
  request, never after a failure, never on an early return.
\<close>

theorem verification_exactly_at_done:
  assumes body: "password_auth_body B E args service creds0 cv0 w = Some fl"
      and run: "pamk5_password_auth B E args service creds0 cv0 w = Some (st, cr, c', w')"
  shows "verifications (trace w')
           = verifications (trace w)
             + (if service = None \<and> (\<exists>creds cv c w1. fl = Done 0 creds cv c w1) then 1 else 0)"
proof (cases rule: password_auth_body_cases [of args B E service creds0 cv0 w])
  case null
  from password_auth_return [OF null(2) run] null(2) body show ?thesis by auto
next
  case (resolve c0 rv0 c w1)
  from password_auth_return [OF resolve(4) run] parse_name_frame [OF resolve(2)] resolve(4) body
  show ?thesis by auto
next
  case (pkinit c0 c w1 rv1 creds1 w2)
  from done_label_frame(1) [OF password_auth_done [OF pkinit(4) run]]
    parse_name_frame [OF pkinit(2)] pkinit_stage_verifications [OF pkinit(3)] pkinit(4) body
  show ?thesis by auto
next
  case (nomem c0 c w1 rv1 creds1 w2)
  from password_auth_return [OF nomem(5) run] parse_name_frame [OF nomem(2)]
    pkinit_stage_verifications [OF nomem(3)] nomem(5) body
  show ?thesis by auto
next
  case (early c0 c w1 rv1 creds1 w2 cr1 w3 rv)
  from done_label_frame(1) [OF password_auth_done [OF early(6) run]]
    parse_name_frame [OF early(2)] pkinit_stage_verifications [OF early(3)]
    calloc_creds_frame(1) [OF early(4)] early(5,6) body
  show ?thesis by auto
next
  case fault
  with run show ?thesis by (simp add: pamk5_password_auth_def)
next
  case (loop c0 c w1 rv1 creds1 w2 cr1 w3 opts pass rv2 cv c2 w4)
  from done_label_frame(1) [OF password_auth_done [OF loop(6) run]]
    parse_name_frame [OF loop(2)] pkinit_stage_verifications [OF loop(3)]
    calloc_creds_frame(1) [OF loop(4)] password_loop_frame [OF loop(5)] loop(6) body
  show ?thesis by auto
qed

text \<open>Runs of the example deployment.\<close>

lemma ex_retry_run:
  "pamk5_password_auth ex_build ex_env (ex_args\<lparr>try_first_pass := True\<rparr>) None None False
        ex_retry_world
     = Some (PAM_AUTH_ERR, None, Some (ex_ctx\<lparr>princ := Some bob\<rparr>),
         \<lparr>trace = [ParseName ''bob'', Calloc 0,
                    Exchange (Some bob) (Some ''old'') None KRB5KRB_AP_ERR_BAD_INTEGRITY,
                    GetPassword None,
                    Exchange (Some bob) (Some ''wrong'') None KRB5KRB_AP_ERR_BAD_INTEGRITY],
           errno = 0, items = (\<lambda>i. Some ''old'')(PAM_AUTHTOK := Some ''wrong''),
           replies = [(0, ''secret'')], structs = {}, material = (\<lambda>a. None), next_addr = 1\<rparr>)"
  by (simp add: done_eval auth_eval ex_defs ex_retry_world_def pam_codes krb5_codes)

lemma ex_success_body:
  "password_auth_body ex_build ex_env ex_args None None False
        (ex_world\<lparr>replies := [(0, ''secret'')]\<rparr>)
     = Some (Done 0 (Some 0) True (ex_ctx\<lparr>princ := Some bob\<rparr>)
         \<lparr>trace = [ParseName ''bob'', Calloc 0, GetPassword None,
                    Exchange (Some bob) (Some ''secret'') None 0],
           errno = 0, items = (\<lambda>i. None)(PAM_AUTHTOK := Some ''secret''),
           replies = [], structs = {0},
           material = (\<lambda>a. None)(0 := Some (Ticket (Some bob) None)), next_addr = 1\<rparr>)"
  by (simp add: auth_eval ex_defs pam_codes krb5_codes)

lemma ex_success_run:
  "pamk5_password_auth ex_build ex_env ex_args None None False
        (ex_world\<lparr>replies := [(0, ''secret'')]\<rparr>)
     = Some (PAM_SUCCESS, Some 0, Some (ex_ctx\<lparr>princ := Some bob\<rparr>),
         \<lparr>trace = [ParseName ''bob'', Calloc 0, GetPassword None,
                    Exchange (Some bob) (Some ''secret'') None 0, Verify 0],
           errno = 0, items = (\<lambda>i. None)(PAM_AUTHTOK := Some ''secret''),
           replies = [], structs = {0},
           material = (\<lambda>a. None)(0 := Some (Ticket (Some bob) None)), next_addr = 1\<rparr>)"
  by (simp add: done_eval auth_eval ex_defs pam_codes krb5_codes)

theorem failure_returns_no_credential_witness:
  "(\<exists>c' w'. pamk5_password_auth ex_build ex_env (ex_args\<lparr>try_first_pass := True\<rparr>) None None
               False ex_retry_world = Some (PAM_AUTH_ERR, None, c', w'))
   \<and> PAM_AUTH_ERR \<noteq> PAM_SUCCESS"
proof -
  have ne: "PAM_AUTH_ERR \<noteq> PAM_SUCCESS" by (simp add: pam_codes)
  from failure_returns_no_credential [OF ex_retry_run ne] ex_retry_run ne
  show ?thesis by blast
qed

theorem password_path_releases_credential_witness:
  "\<not> have_pkinit ex_build \<and> next_addr ex_retry_world \<notin> structs ex_retry_world
   \<and> material ex_retry_world (next_addr ex_retry_world) = None
   \<and> PAM_AUTH_ERR \<noteq> PAM_SUCCESS
   \<and> (\<exists>c' w'. pamk5_password_auth ex_build ex_env (ex_args\<lparr>try_first_pass := True\<rparr>) None None
               False ex_retry_world = Some (PAM_AUTH_ERR, None, c', w')
          \<and> structs w' = structs ex_retry_world \<and> material w' = material ex_retry_world)"
proof -
  have ne: "PAM_AUTH_ERR \<noteq> PAM_SUCCESS" by (simp add: pam_codes)
  have b: "\<not> have_pkinit ex_build" by (simp add: ex_defs)
  have f: "next_addr ex_retry_world \<notin> structs ex_retry_world"
          "material ex_retry_world (next_addr ex_retry_world) = None"
    by (simp_all add: ex_retry_world_def ex_defs)
  from password_path_releases_credential [OF b f ex_retry_run ne] ex_retry_run b f ne
  show ?thesis by blast
qed

theorem verification_exactly_at_done_witness:
  "(\<exists>c' w'. pamk5_password_auth ex_build ex_env ex_args None None False
               (ex_world\<lparr>replies := [(0, ''secret'')]\<rparr>) = Some (PAM_SUCCESS, Some 0, c', w')
          \<and> verifications (trace w') = 1)
   \<and> verifications (trace (ex_world\<lparr>replies := [(0, ''secret'')]\<rparr>)) = 0"
proof -
  have z: "verifications (trace (ex_world\<lparr>replies := [(0, ''secret'')]\<rparr>)) = 0"
    by (simp add: ex_defs)
  from verification_exactly_at_done [OF ex_success_body ex_success_run] z
  have "verifications (trace
         \<lparr>trace = [ParseName ''bob'', Calloc 0, GetPassword None,
                    Exchange (Some bob) (Some ''secret'') None 0, Verify 0],
           errno = 0, items = (\<lambda>i. None)(PAM_AUTHTOK := Some ''secret''),
           replies = [], structs = {0},
           material = (\<lambda>a. None)(0 := Some (Ticket (Some bob) None)), next_addr = 1\<rparr>) = 1"
    by simp
  with ex_success_run z show ?thesis by blast
qed


section \<open>Properties of armor provisioning\<close>

lemma mkstemp_unique:
  assumes "pamk5_cache_mkstemp E template w = (PAM_SUCCESS, path, w1)"
  shows "path = take (length template - 6) template @ mkstemp_suffix E"
    and "path \<notin> files w" and "path \<in> files w1"
    and "fast_trace w1 = fast_trace w @ [Mkstemp path]"
    and "anon_fast_ccache w1 = anon_fast_ccache w"
  using assms
  by (auto simp: pamk5_cache_mkstemp_def Let_def fast_log_def pam_codes split: if_splits)

lemma cc_destroy_trace: "fast_trace (krb5_cc_destroy cc w) = fast_trace w @ [CcDestroy cc]"
  by (simp add: krb5_cc_destroy_def fast_log_def)

lemma cache_init_anonymous_request:
  assumes "have_set_anonymous B"
      and "krb5_get_default_realm E = (0, r)"
      and "krb5_build_principal_ext E = 0"
      and "asprintf_ok E"
      and "dir = (if take 5 (ccache_dir cfg) = ''FILE:'' then drop 5 (ccache_dir cfg)
                  else ccache_dir cfg)"
      and "pamk5_cache_mkstemp E (dir @ ''/krb5cc_pam_armor_XXXXXX'') w = (PAM_SUCCESS, path, w1)"
      and "krb5_cc_resolve E path = 0"
      and "fast_opt_alloc E = 0"
      and "anon = \<lparr>princ_name = [''WELLKNOWN'', ''ANONYMOUS''], princ_realm = r\<rparr>"
      and "opts60 = opt_init\<lparr>opt_anonymous := True, opt_tkt_life := Some 60,
              opt_out_ccache := (if have_set_out_ccache B then Some path else None)\<rparr>"
  shows "\<exists>rc cc w' rest. cache_init_anonymous B E cfg w = (rc, cc, w')
           \<and> fast_trace w' = fast_trace w @ [Mkstemp path, CcResolve path,
                 AnonExchange anon None opts60 (anon_kdc E anon opts60)] @ rest"
proof -
  let ?w2 = "fast_log (CcResolve path) w1"
  let ?rv = "anon_kdc E anon opts60"
  let ?w3 = "fast_log (AnonExchange anon None opts60 ?rv) ?w2"
  have t3: "fast_trace ?w3 = fast_trace w @ [Mkstemp path, CcResolve path,
                 AnonExchange anon None opts60 ?rv]"
    using mkstemp_unique(4) [OF assms(6)] by (simp add: fast_log_def)
  have "cache_init_anonymous B E cfg w = (?rv, None, krb5_cc_destroy path ?w3)
        \<or> cache_init_anonymous B E cfg w = (0, Some path, ?w3)
        \<or> cache_init_anonymous B E cfg w = (krb5_cc_initialize E, None, krb5_cc_destroy path ?w3)
        \<or> cache_init_anonymous B E cfg w = (krb5_cc_store_cred E, None, krb5_cc_destroy path ?w3)"
    using assms
    by (simp add: cache_init_anonymous_def Let_def KRB5_WELLKNOWN_NAME_def KRB5_ANON_NAME_def)
  then show ?thesis
    using t3 by (auto simp: cc_destroy_trace)
qed

lemma fast_setup_trace:
  assumes "have_set_fast_ccache_name B"
      and "\<not> configured_cache_valid E cfg" and "anon_fast cfg"
      and "cache_init_anonymous B E cfg w = (rc, cc, w1)"
  shows "\<exists>opts' w' rest. pamk5_fast_setup B E cfg opts w = (opts', w')
           \<and> fast_trace w' = fast_trace w1 @ rest"
proof (cases "rc \<noteq> 0")
  case True
  with assms have "pamk5_fast_setup B E cfg opts w = (opts, w1)"
    by (auto simp: pamk5_fast_setup_def)
  then show ?thesis by simp
next
  case False
  then have rc: "rc = 0" by simp
  obtain rc2 full where full: "krb5_cc_get_full_name E cc = (rc2, full)"
    by (cases "krb5_cc_get_full_name E cc")
  let ?w2 = "case anon_fast_ccache w1 of None \<Rightarrow> w1 | Some old \<Rightarrow> krb5_cc_destroy old w1"
  let ?w3 = "?w2\<lparr>anon_fast_ccache := cc\<rparr>"
  have tr: "\<exists>rest. fast_trace ?w3 = fast_trace w1 @ rest"
    by (cases "anon_fast_ccache w1") (simp_all add: krb5_cc_destroy_def fast_log_def)
  have "pamk5_fast_setup B E cfg opts w = (opts, ?w3)
        \<or> pamk5_fast_setup B E cfg opts w = (opts\<lparr>opt_fast_ccache := Some full\<rparr>, ?w3)"
    using assms rc full by (simp add: pamk5_fast_setup_def Let_def)
  with tr show ?thesis by auto
qed

text \<open>
  Claim C9. When the configured armor cache is not valid and anonymous armoring is
  allowed (and the library has the two calls the code needs), then, provided the
  default realm is found and the steps before the request succeed, the provisioner
  creates the cache file \<open>dir/krb5cc_pam_armor_\<close> followed by the suffix picked by
  \<open>mkstemp\<close>, a name no file had before, and then requests credentials for
  \<open>WELLKNOWN/ANONYMOUS\<close> in the default realm, without a password, with the anonymous
  flag set and a ticket lifetime of 60 seconds.
\<close>

theorem anonymous_armor_request:
  assumes "have_set_fast_ccache_name B" and "have_set_anonymous B"
      and "\<not> configured_cache_valid E cfg" and "anon_fast cfg"
      and "krb5_get_default_realm E = (0, r)"
      and "krb5_build_principal_ext E = 0"
      and "asprintf_ok E"
      and "dir = (if take 5 (ccache_dir cfg) = ''FILE:'' then drop 5 (ccache_dir cfg)
                  else ccache_dir cfg)"
      and "pamk5_cache_mkstemp E (dir @ ''/krb5cc_pam_armor_XXXXXX'') w = (PAM_SUCCESS, path, w1)"
      and "krb5_cc_resolve E path = 0"
      and "fast_opt_alloc E = 0"
      and "anon = \<lparr>princ_name = [''WELLKNOWN'', ''ANONYMOUS''], princ_realm = r\<rparr>"
      and "opts60 = opt_init\<lparr>opt_anonymous := True, opt_tkt_life := Some 60,
              opt_out_ccache := (if have_set_out_ccache B then Some path else None)\<rparr>"
  shows "path = dir @ ''/krb5cc_pam_armor_'' @ mkstemp_suffix E
         \<and> path \<notin> files w \<and> path \<in> files w1
         \<and> (\<exists>opts' w' rest. pamk5_fast_setup B E cfg opts w = (opts', w')
               \<and> fast_trace w' = fast_trace w @ [Mkstemp path, CcResolve path,
                     AnonExchange anon None opts60 (anon_kdc E anon opts60)] @ rest)"
proof -
  from cache_init_anonymous_request [OF assms(2) assms(5-13)]
  obtain rc cc w2 rest where
    init: "cache_init_anonymous B E cfg w = (rc, cc, w2)" and
    tr: "fast_trace w2 = fast_trace w @ [Mkstemp path, CcResolve path,
                 AnonExchange anon None opts60 (anon_kdc E anon opts60)] @ rest"
    by blast
  from fast_setup_trace [OF assms(1) assms(3) assms(4) init, of opts]
  obtain opts' w' rest' where
    "pamk5_fast_setup B E cfg opts w = (opts', w')" "fast_trace w' = fast_trace w2 @ rest'"
    by blast
  with tr have "\<exists>opts' w' rest. pamk5_fast_setup B E cfg opts w = (opts', w')
               \<and> fast_trace w' = fast_trace w @ [Mkstemp path, CcResolve path,
                     AnonExchange anon None opts60 (anon_kdc E anon opts60)] @ rest"
    by simp
  moreover from mkstemp_unique(1-3) [OF assms(9)]
  have "path = dir @ ''/krb5cc_pam_armor_'' @ mkstemp_suffix E"
       "path \<notin> files w" "path \<in> files w1"
    by simp_all
  ultimately show ?thesis by blast
qed

theorem anonymous_armor_request_witness:
  "\<not> configured_cache_valid ex_fast_env ex_fast_config
   \<and> anon_fast ex_fast_config
   \<and> pamk5_cache_mkstemp ex_fast_env ''/tmp/krb5cc_pam_armor_XXXXXX'' ex_fast_world
       = (PAM_SUCCESS, ''/tmp/krb5cc_pam_armor_a1B2c3'',
          \<lparr>fast_trace = [Mkstemp ''/tmp/krb5cc_pam_armor_a1B2c3''], fast_errno = 0,
            files = {''/tmp/krb5cc_pam_armor_a1B2c3''}, anon_fast_ccache = None\<rparr>)
   \<and> (\<exists>opts' w' rest. pamk5_fast_setup ex_fast_build ex_fast_env ex_fast_config opt_init
                          ex_fast_world = (opts', w')
         \<and> fast_trace w' =
             [Mkstemp ''/tmp/krb5cc_pam_armor_a1B2c3'', CcResolve ''/tmp/krb5cc_pam_armor_a1B2c3'',
              AnonExchange \<lparr>princ_name = [''WELLKNOWN'', ''ANONYMOUS''], princ_realm = ''EXAMPLE.ORG''\<rparr>
                None
                (opt_init\<lparr>opt_anonymous := True, opt_tkt_life := Some 60,
                           opt_out_ccache := Some ''/tmp/krb5cc_pam_armor_a1B2c3''\<rparr>) 0] @ rest)"
proof -
  let ?path = "''/tmp/krb5cc_pam_armor_a1B2c3''"
  let ?w1 = "\<lparr>fast_trace = [Mkstemp ?path], fast_errno = 0, files = {?path},
               anon_fast_ccache = None\<rparr>"
  let ?anon = "\<lparr>princ_name = [''WELLKNOWN'', ''ANONYMOUS''], princ_realm = ''EXAMPLE.ORG''\<rparr>"
  let ?opts = "opt_init\<lparr>opt_anonymous := True, opt_tkt_life := Some 60,
                          opt_out_ccache := Some ?path\<rparr>"
  have inv: "\<not> configured_cache_valid ex_fast_env ex_fast_config"
    by (simp add: configured_cache_valid_def ex_fast_defs)
  have anon: "anon_fast ex_fast_config" by (simp add: ex_fast_defs)
  have mk: "pamk5_cache_mkstemp ex_fast_env (''/tmp'' @ ''/krb5cc_pam_armor_XXXXXX'') ex_fast_world
       = (PAM_SUCCESS, ?path, ?w1)"
    by (simp add: pamk5_cache_mkstemp_def fast_log_def Let_def ex_fast_defs)
  have b1: "have_set_fast_ccache_name ex_fast_build" and b2: "have_set_anonymous ex_fast_build"
    by (simp_all add: ex_fast_defs)
  have e1: "krb5_get_default_realm ex_fast_env = (0, ''EXAMPLE.ORG'')"
    and e2: "krb5_build_principal_ext ex_fast_env = 0"
    and e3: "asprintf_ok ex_fast_env"
    and e4: "krb5_cc_resolve ex_fast_env ?path = 0"
    and e5: "fast_opt_alloc ex_fast_env = 0"
    by (simp_all add: ex_fast_defs)
  have d: "''/tmp'' = (if take 5 (ccache_dir ex_fast_config) = ''FILE:''
                       then drop 5 (ccache_dir ex_fast_config) else ccache_dir ex_fast_config)"
    by (simp add: ex_fast_defs)
  have o: "?opts = opt_init\<lparr>opt_anonymous := True, opt_tkt_life := Some 60,
              opt_out_ccache := (if have_set_out_ccache ex_fast_build then Some ?path else None)\<rparr>"
    by (simp add: ex_fast_defs)
  note inst = anonymous_armor_request [OF b1 b2 inv anon e1 e2 e3 d mk e4 e5 refl o,
      where opts = opt_init]
  have k: "anon_kdc ex_fast_env ?anon ?opts = 0" by (simp add: ex_fast_defs)
  have t0: "fast_trace ex_fast_world = []" by (simp add: ex_fast_defs)
  from inst have "\<exists>opts' w' rest. pamk5_fast_setup ex_fast_build ex_fast_env ex_fast_config
                 opt_init ex_fast_world = (opts', w')
               \<and> fast_trace w' = fast_trace ex_fast_world @ [Mkstemp ?path, CcResolve ?path,
                     AnonExchange ?anon None ?opts (anon_kdc ex_fast_env ?anon ?opts)] @ rest"
    by (rule conjunct2 [THEN conjunct2, THEN conjunct2])
  then have run: "\<exists>opts' w' rest. pamk5_fast_setup ex_fast_build ex_fast_env ex_fast_config
                 opt_init ex_fast_world = (opts', w')
               \<and> fast_trace w' = [Mkstemp ?path, CcResolve ?path,
                     AnonExchange ?anon None ?opts 0] @ rest"
    unfolding k t0 by simp
  from inv anon mk run show ?thesis by simp
qed

end
